theory Spec2Isabelle
  imports Main "HOL-Library.AList" "HOL-Library.Multiset"
begin

section \<open>The orchestration run of the medical report analysis (streamlit.py)\<close>

text \<open>
  The development embeds \<^verbatim>\<open>process_medical_report\<close> and its inner function
  \<^verbatim>\<open>get_response\<close>. Three things lie outside the source file and are parameters of the
  model:
  \<^item> the module \<^verbatim>\<open>utils.Agents\<close> (the four agent classes): a record of constructors. A
    constructor returns an agent object or raises; the one method the source calls on an
    agent, \<^verbatim>\<open>run()\<close>, returns a text, returns \<^verbatim>\<open>None\<close>, or raises;
  \<^item> the thread pool: the order in which the submitted calls return, and the order in which
    \<^verbatim>\<open>as_completed\<close> yields their futures, each given by a schedule that picks, at every
    step, which of the remaining ones comes next;
  \<^item> the Streamlit widgets: every call on them is recorded, per widget, in the order in which
    it is made. The calls are taken to return normally; the values given to the progress bar
    are shown below to lie in the range the widget accepts.

  The workers run in pool threads, concurrently with each other and with the loop that
  collects their results. The effects are therefore kept per widget and per kind: the order
  within one list is the order of the program, and nothing is said about the order of
  entries of different lists.
\<close>

subsection \<open>Values\<close>

text \<open>What \<^verbatim>\<open>run()\<close> returns: a text, or \<^verbatim>\<open>None\<close>.\<close>

type_synonym response = "string option"

text \<open>
  A raised exception, with its text \<^verbatim>\<open>str(e)\<close>. \<open>Exception\<close> stands for the instances of the
  class \<^verbatim>\<open>Exception\<close>, which the handler of line 158 names; \<open>BaseException\<close> for the raised
  values outside that class (\<^verbatim>\<open>SystemExit\<close>, \<^verbatim>\<open>KeyboardInterrupt\<close>, the control exceptions of
  Streamlit), which the handler lets pass.
\<close>

datatype py_exc = is_Exception: Exception (str: string) | BaseException (str: string)

text \<open>
  An agent object, as far as the source uses it: what its \<^verbatim>\<open>run()\<close> does at the first call,
  at the second call, and so on.
\<close>

datatype agent = Agent (outcomes: "nat \<Rightarrow> py_exc + response")

text \<open>
  The classes imported on line 11, as functions of the constructor arguments: the report and
  the credential for the three analyzers, the three reports and the credential for the team.
\<close>

record Agents =
  Cardiologist :: "string \<Rightarrow> string \<Rightarrow> py_exc + agent"
  Psychologist :: "string \<Rightarrow> string \<Rightarrow> py_exc + agent"
  Pulmonologist :: "string \<Rightarrow> string \<Rightarrow> py_exc + agent"
  MultidisciplinaryTeam :: "response \<Rightarrow> response \<Rightarrow> response \<Rightarrow> string \<Rightarrow> py_exc + agent"

text \<open>The dictionary \<^verbatim>\<open>responses\<close>, in insertion order.\<close>

type_synonym responses = "(string \<times> response) list"

text \<open>The returned pair: \<^verbatim>\<open>(responses, final_diagnosis)\<close> or \<^verbatim>\<open>(None, None)\<close>.\<close>

type_synonym ret = "responses option \<times> string option"

subsection \<open>Observable effects\<close>

datatype msg = Warning string | Error string

datatype call =
    AnalyzerInit string string string
  | TeamInit response response response string
  | RunCall string

text \<open>
  \<open>progress_bar\<close>: the values given to \<^verbatim>\<open>st.progress\<close> and \<^verbatim>\<open>progress_bar.progress\<close>;
  \<open>status_text\<close>: the texts given to \<^verbatim>\<open>status_text.text\<close>;
  \<open>messages\<close>: the calls of \<^verbatim>\<open>st.warning\<close> and \<^verbatim>\<open>st.error\<close>;
  \<open>calls\<close>: the calls into \<^verbatim>\<open>utils.Agents\<close>: constructor calls (class name and arguments)
  and \<^verbatim>\<open>run()\<close> invocations (the name the worker is registered under).
\<close>

record effects =
  progress_bar :: "nat list"
  status_text :: "string list"
  messages :: "msg list"
  calls :: "call list"

definition progress :: "nat \<Rightarrow> effects \<Rightarrow> effects" where
  "progress v s = s\<lparr>progress_bar := progress_bar s @ [v]\<rparr>"

definition status_text_text :: "string \<Rightarrow> effects \<Rightarrow> effects" where
  "status_text_text t s = s\<lparr>status_text := status_text s @ [t]\<rparr>"

definition st_error :: "string \<Rightarrow> effects \<Rightarrow> effects" where
  "st_error t s = s\<lparr>messages := messages s @ [Error t]\<rparr>"

definition called :: "call list \<Rightarrow> effects \<Rightarrow> effects" where
  "called cs s = s\<lparr>calls := calls s @ cs\<rparr>"

subsection \<open>The call of run()\<close>

text \<open>
  \<^verbatim>\<open>agent.run()\<close> on the agent registered as \<open>name\<close>. \<open>log\<close> holds the calls made on this
  object so far: the call is added to it, and the outcome is that of the first call when the
  log holds no earlier one, of the second call when it holds one, and so on.
\<close>

definition run :: "string \<Rightarrow> agent \<Rightarrow> call list \<Rightarrow> (py_exc + response) \<times> call list" where
  "run name agent log =
     (outcomes agent (count_list log (RunCall name)), log @ [RunCall name])"

subsection \<open>The worker function (lines 110-114)\<close>

definition warning_text :: "string \<Rightarrow> string" where
  "warning_text agent_name =
     ''Warning: '' @ agent_name @ '' failed to generate a response, likely due to API issues.''"

text \<open>
  \<^verbatim>\<open>get_response\<close> runs in a pool thread, on an agent that has not been run before.
  \<open>result\<close> is what the future of the call holds in the end: the exception \<^verbatim>\<open>agent.run()\<close>
  raised, or the returned pair. \<open>invocations\<close> are the calls the thread made on the agent,
  \<open>warnings\<close> the warnings it issued.
\<close>

record worker =
  result :: "py_exc + string \<times> response"
  invocations :: "call list"
  warnings :: "msg list"

definition get_response :: "string \<Rightarrow> agent \<Rightarrow> worker" where
  "get_response agent_name agent =
     (case run agent_name agent [] of
        (Inl e, log) \<Rightarrow> \<lparr>result = Inl e, invocations = log, warnings = []\<rparr>
      | (Inr response, log) \<Rightarrow>
          \<lparr>result = Inr (agent_name, response), invocations = log,
           warnings = (if response = None then [Warning (warning_text agent_name)] else [])\<rparr>)"

subsection \<open>Orders of the pool\<close>

text \<open>
  A schedule turns the list of the submitted calls into an order: it gives, for each step,
  the position (modulo their number) of the remaining one that comes next; when the schedule
  is used up the rest follows in submission order. \<^verbatim>\<open>as_completed\<close> yields every future
  once, in an order of this kind.
\<close>

definition remove_nth :: "nat \<Rightarrow> 'a list \<Rightarrow> 'a list" where
  "remove_nth j xs = take j xs @ drop (Suc j) xs"

function as_completed :: "'a list \<Rightarrow> nat list \<Rightarrow> 'a list" where
  "as_completed [] sched = []"
| "as_completed (f # fs) [] = f # fs"
| "as_completed (f # fs) (i # sched) =
     (let j = i mod length (f # fs)
      in (f # fs) ! j # as_completed (remove_nth j (f # fs)) sched)"
  by pat_completeness auto
termination
  by (relation "measure (\<lambda>(fs, sched). length fs)") (auto simp: remove_nth_def)

subsection \<open>The collection loop (lines 123-129)\<close>

text \<open>
  \<^verbatim>\<open>future.result()\<close> re-raises what the worker raised; then the loop is left.
\<close>

fun collect ::
  "(py_exc + string \<times> response) list \<Rightarrow> responses \<Rightarrow> nat \<Rightarrow> effects \<Rightarrow>
     (py_exc + responses) \<times> effects" where
  "collect [] responses completed s = (Inr responses, s)"
| "collect (future # rest) responses completed s =
     (case future of
        Inl e \<Rightarrow> (Inl e, s)
      | Inr (agent_name, response) \<Rightarrow>
          collect rest (AList.update agent_name response responses) (completed + 1)
            (status_text_text (''Completed '' @ agent_name @ '' analysis...'')
              (progress (20 + (completed + 1) * 20) s)))"

subsection \<open>The pool block (lines 118-129)\<close>

text \<open>
  Every agent of the dictionary is submitted, and \<^verbatim>\<open>get_response\<close> is run on each: the
  calls the workers make are logged in submission order. Leaving the \<^verbatim>\<open>with\<close> block waits
  for all submitted calls, also when the loop is left by an exception: the warnings of all
  workers are issued before the block is left, in the order \<open>returning\<close> in which the workers
  return. The loop goes through the futures in the order \<open>sched\<close> in which \<^verbatim>\<open>as_completed\<close>
  yields them.
\<close>

definition run_executor ::
  "(string \<times> agent) list \<Rightarrow> nat list \<Rightarrow> nat list \<Rightarrow> effects \<Rightarrow> (py_exc + responses) \<times> effects" where
  "run_executor agents returning sched s =
     (let submitted = map (\<lambda>(name, agent). get_response name agent) agents;
          s1 = called (concat (map invocations submitted)) s;
          s2 = s1\<lparr>messages := messages s1 @ concat (map warnings (as_completed submitted returning))\<rparr>
      in collect (map result (as_completed submitted sched)) [] 0 s2)"

subsection \<open>The body of the try block (lines 97-156)\<close>

text \<open>
  The dictionary literal of lines 101-105: the three constructors are called in turn, and the
  first one that raises ends the evaluation.
\<close>

definition construct_agents ::
  "Agents \<Rightarrow> string \<Rightarrow> string \<Rightarrow> effects \<Rightarrow> (py_exc + (string \<times> agent) list) \<times> effects" where
  "construct_agents M medical_report api_key s =
     (let s1 = called [AnalyzerInit ''Cardiologist'' medical_report api_key] s
      in case Cardiologist M medical_report api_key of
           Inl e \<Rightarrow> (Inl e, s1)
         | Inr cardiologist \<Rightarrow>
     (let s2 = called [AnalyzerInit ''Psychologist'' medical_report api_key] s1
      in case Psychologist M medical_report api_key of
           Inl e \<Rightarrow> (Inl e, s2)
         | Inr psychologist \<Rightarrow>
     (let s3 = called [AnalyzerInit ''Pulmonologist'' medical_report api_key] s2
      in case Pulmonologist M medical_report api_key of
           Inl e \<Rightarrow> (Inl e, s3)
         | Inr pulmonologist \<Rightarrow>
             (Inr [(''Cardiologist'', cardiologist), (''Psychologist'', psychologist),
                   (''Pulmonologist'', pulmonologist)], s3))))"

text \<open>\<^verbatim>\<open>responses[key]\<close>: a missing key raises \<^verbatim>\<open>KeyError\<close>, whose text is the quoted key.\<close>

definition getitem :: "responses \<Rightarrow> string \<Rightarrow> py_exc + response" where
  "getitem responses key =
     (case map_of responses key of
        None \<Rightarrow> Inl (Exception ([CHR 0x27] @ key @ [CHR 0x27]))
      | Some v \<Rightarrow> Inr v)"

text \<open>Lines 139-156: the team agent is constructed, run once, and its answer is checked.\<close>

definition synthesis ::
  "Agents \<Rightarrow> string \<Rightarrow> responses \<Rightarrow> effects \<Rightarrow> (py_exc + ret) \<times> effects" where
  "synthesis M api_key responses s =
     (case getitem responses ''Cardiologist'' of
        Inl e \<Rightarrow> (Inl e, s)
      | Inr cardiologist_report \<Rightarrow>
     (case getitem responses ''Psychologist'' of
        Inl e \<Rightarrow> (Inl e, s)
      | Inr psychologist_report \<Rightarrow>
     (case getitem responses ''Pulmonologist'' of
        Inl e \<Rightarrow> (Inl e, s)
      | Inr pulmonologist_report \<Rightarrow>
     (let s1 = called [TeamInit cardiologist_report psychologist_report
                         pulmonologist_report api_key] s
      in case MultidisciplinaryTeam M cardiologist_report psychologist_report
                pulmonologist_report api_key of
           Inl e \<Rightarrow> (Inl e, s1)
         | Inr team_agent \<Rightarrow>
     (case run ''MultidisciplinaryTeam'' team_agent [] of
        (outcome, log) \<Rightarrow>
     (let s2 = called log s1
      in case outcome of
           Inl e \<Rightarrow> (Inl e, s2)
         | Inr final_diagnosis \<Rightarrow>
             if final_diagnosis = None
             then (Inr (None, None),
                   st_error ''Error: MultidisciplinaryTeam failed to generate a final diagnosis.'' s2)
             else (Inr (Some responses, final_diagnosis),
                   status_text_text ''Analysis completed successfully!'' (progress 100 s2))))))))"

definition try_body ::
  "Agents \<Rightarrow> nat list \<Rightarrow> nat list \<Rightarrow> string \<Rightarrow> string \<Rightarrow> effects \<Rightarrow> (py_exc + ret) \<times> effects" where
  "try_body M returning sched medical_report api_key s =
     (let s1 = progress 10 (status_text_text ''Initializing AI agents...'' s)
      in case construct_agents M medical_report api_key s1 of
           (Inl e, s2) \<Rightarrow> (Inl e, s2)
         | (Inr agents, s2) \<Rightarrow>
     (let s3 = progress 20 s2;
          s4 = status_text_text ''Running specialist consultations...'' s3
      in case run_executor agents returning sched s4 of
           (Inl e, s5) \<Rightarrow> (Inl e, s5)
         | (Inr responses, s5) \<Rightarrow>
             if None \<in> set (map snd responses)
             then (Inr (None, None),
                   st_error ''Error: One or more agents failed to generate a response. Check API key and quota.'' s5)
             else synthesis M api_key responses
                    (status_text_text ''Generating multidisciplinary team analysis...''
                      (progress 80 s5))))"

subsection \<open>process_medical_report (lines 89-160)\<close>

text \<open>
  The handler of lines 158-160: an instance of \<^verbatim>\<open>Exception\<close> is reported and the pair of
  \<^verbatim>\<open>None\<close>s returned; any other raised value is not caught and reaches the caller.
\<close>

definition except_Exception :: "py_exc \<Rightarrow> effects \<Rightarrow> (py_exc + ret) \<times> effects" where
  "except_Exception e s =
     (if is_Exception e
      then (Inr (None, None), st_error (''An error occurred during processing: '' @ str e) s)
      else (Inl e, s))"

definition process_medical_report ::
  "Agents \<Rightarrow> nat list \<Rightarrow> nat list \<Rightarrow> string \<Rightarrow> string \<Rightarrow> (py_exc + ret) \<times> effects" where
  "process_medical_report M returning sched medical_report api_key =
     (let s = \<lparr>progress_bar = [0], status_text = [], messages = [], calls = []\<rparr>
      in case try_body M returning sched medical_report api_key s of
           (Inl e, s1) \<Rightarrow> except_Exception e s1
         | (Inr r, s1) \<Rightarrow> (Inr r, s1))"

section \<open>Auxiliary notions\<close>

text \<open>
  Notions the statements and proofs below use to speak about a run. None of them is part of
  the program.
\<close>

text \<open>
  The results the loop receives from a sequence of futures: those in front of the first
  future that holds an exception.
\<close>

fun returned :: "('e + 'a) list \<Rightarrow> 'a list" where
  "returned [] = []"
| "returned (Inl e # fs) = []"
| "returned (Inr p # fs) = p # returned fs"

text \<open>
  The value of the loop, without its effects.
\<close>

fun gathered :: "(py_exc + string \<times> response) list \<Rightarrow> responses \<Rightarrow> py_exc + responses" where
  "gathered [] acc = Inr acc"
| "gathered (Inl e # fs) acc = Inl e"
| "gathered (Inr (n, v) # fs) acc = gathered fs (AList.update n v acc)"

text \<open>
  The progress values of the first \<open>n\<close> rounds of the loop.
\<close>

definition loop_progress :: "nat \<Rightarrow> nat list" where
  "loop_progress n = map (\<lambda>i. 20 + Suc i * 20) [0..<n]"

text \<open>
  The status texts of the loop for the results it receives.
\<close>

definition loop_status :: "(string \<times> response) list \<Rightarrow> string list" where
  "loop_status rs = map (\<lambda>(n, v). ''Completed '' @ n @ '' analysis...'') rs"

text \<open>
  The calls the pool is given for a dictionary of agents, in submission order.
\<close>

definition submitted :: "(string \<times> agent) list \<Rightarrow> worker list" where
  "submitted ags = map (\<lambda>(name, agent). get_response name agent) ags"

text \<open>
  Their futures, in the order in which \<^verbatim>\<open>as_completed\<close> yields them.
\<close>

definition yielded :: "(string \<times> agent) list \<Rightarrow> nat list \<Rightarrow> (py_exc + string \<times> response) list" where
  "yielded ags sched = map result (as_completed (submitted ags) sched)"

text \<open>
  What the agents of a dictionary return at their first call; used only where none of
  them raises.
\<close>

definition results :: "(string \<times> agent) list \<Rightarrow> (string \<times> response) list" where
  "results ags = map (\<lambda>(n, a). (n, projr (outcomes a 0))) ags"

text \<open>
  The dictionary of lines 101-105 when the three constructors return an agent; \<open>None\<close> when
  one of them raises.
\<close>

definition constructed :: "Agents \<Rightarrow> string \<Rightarrow> string \<Rightarrow> (string \<times> agent) list option" where
  "constructed M medical_report api_key =
     (case Cardiologist M medical_report api_key of
        Inl e \<Rightarrow> None
      | Inr cardiologist \<Rightarrow>
     (case Psychologist M medical_report api_key of
        Inl e \<Rightarrow> None
      | Inr psychologist \<Rightarrow>
     (case Pulmonologist M medical_report api_key of
        Inl e \<Rightarrow> None
      | Inr pulmonologist \<Rightarrow>
          Some [(''Cardiologist'', cardiologist), (''Psychologist'', psychologist),
                (''Pulmonologist'', pulmonologist)])))"

text \<open>
  The three constructor calls of lines 101-105.
\<close>

definition agents_constructed :: "string \<Rightarrow> string \<Rightarrow> call list" where
  "agents_constructed medical_report api_key =
     [AnalyzerInit ''Cardiologist'' medical_report api_key,
      AnalyzerInit ''Psychologist'' medical_report api_key,
      AnalyzerInit ''Pulmonologist'' medical_report api_key]"

text \<open>
  The effects of a run up to the dictionary literal.
\<close>

definition before_agents :: effects where
  "before_agents =
     \<lparr>progress_bar = [0, 10], status_text = [''Initializing AI agents...''], messages = [],
      calls = []\<rparr>"

text \<open>
  The effects of a run up to the end of the pool block.
\<close>

definition after_pool ::
  "(string \<times> agent) list \<Rightarrow> nat list \<Rightarrow> nat list \<Rightarrow> string \<Rightarrow> string \<Rightarrow> effects" where
  "after_pool ags returning sched r k =
     \<lparr>progress_bar = [0, 10, 20] @ loop_progress (length (returned (yielded ags sched))),
      status_text = [''Initializing AI agents...'', ''Running specialist consultations...''] @
        loop_status (returned (yielded ags sched)),
      messages = concat (map warnings (as_completed (submitted ags) returning)),
      calls = agents_constructed r k @ map (\<lambda>(n, a). RunCall n) ags\<rparr>"

text \<open>
  The effects of a run up to the call of the team agent's constructor.
\<close>

definition before_team ::
  "(string \<times> agent) list \<Rightarrow> nat list \<Rightarrow> nat list \<Rightarrow> string \<Rightarrow> string \<Rightarrow>
     response \<Rightarrow> response \<Rightarrow> response \<Rightarrow> effects" where
  "before_team ags returning sched r k c p q =
     called [TeamInit c p q k]
       (status_text_text ''Generating multidisciplinary team analysis...''
         (progress 80 (after_pool ags returning sched r k)))"

text \<open>
  The effects of a run up to the call of the team agent's \<^verbatim>\<open>run()\<close>.
\<close>

definition before_synthesis ::
  "(string \<times> agent) list \<Rightarrow> nat list \<Rightarrow> nat list \<Rightarrow> string \<Rightarrow> string \<Rightarrow>
     response \<Rightarrow> response \<Rightarrow> response \<Rightarrow> effects" where
  "before_synthesis ags returning sched r k c p q =
     called [RunCall ''MultidisciplinaryTeam''] (before_team ags returning sched r k c p q)"

text \<open>
  The names of the analyzers whose \<^verbatim>\<open>run()\<close> returns \<^verbatim>\<open>None\<close>.
\<close>

definition failed_analyzers :: "Agents \<Rightarrow> string \<Rightarrow> string \<Rightarrow> string list" where
  "failed_analyzers M medical_report api_key =
     (case constructed M medical_report api_key of
        None \<Rightarrow> []
      | Some ags \<Rightarrow> map fst (filter (\<lambda>(name, agent). outcomes agent 0 = Inr None) ags))"

text \<open>
  The returned value with the dictionary read as a mapping: two Python dictionaries are equal
  when they map the same keys to the same values, whatever the insertion order.
\<close>

definition as_mapping ::
  "py_exc + ret \<Rightarrow> py_exc + (string \<rightharpoonup> response) option \<times> string option" where
  "as_mapping = map_sum id (map_prod (map_option map_of) id)"

text \<open>
  The exceptions the \<^verbatim>\<open>run()\<close> of an analyzer raises.
\<close>

definition raised_by_analyzer :: "Agents \<Rightarrow> string \<Rightarrow> string \<Rightarrow> py_exc \<Rightarrow> bool" where
  "raised_by_analyzer M medical_report api_key e =
     (case constructed M medical_report api_key of
        None \<Rightarrow> False
      | Some ags \<Rightarrow> Inl e \<in> set (map (\<lambda>(name, agent). outcomes agent 0) ags))"

subsection \<open>Sample collaborators\<close>

text \<open>
  Collaborators for the concrete runs. In \<open>specialists\<close> every constructor returns an agent and
  every \<^verbatim>\<open>run()\<close> returns a fixed value, whatever the arguments; the texts are those of the
  example scenarios. In the others the Psychologist differs: its \<^verbatim>\<open>run()\<close> raises an
  \<^verbatim>\<open>Exception\<close>, its \<^verbatim>\<open>run()\<close> raises \<^verbatim>\<open>SystemExit\<close>, or its constructor raises.
\<close>

text \<open>
  A constructor call that returns an agent whose \<^verbatim>\<open>run()\<close> always does the same.
\<close>

definition answering :: "py_exc + response \<Rightarrow> py_exc + agent" where
  "answering x = Inr (Agent (\<lambda>n. x))"

definition specialists :: "response \<Rightarrow> response \<Rightarrow> response \<Rightarrow> response \<Rightarrow> Agents" where
  "specialists a b c d =
     \<lparr>Cardiologist = (\<lambda>medical_report api_key. answering (Inr a)),
      Psychologist = (\<lambda>medical_report api_key. answering (Inr b)),
      Pulmonologist = (\<lambda>medical_report api_key. answering (Inr c)),
      MultidisciplinaryTeam = (\<lambda>x y z api_key. answering (Inr d))\<rparr>"

definition raising_psychologist :: "response \<Rightarrow> response \<Rightarrow> Agents" where
  "raising_psychologist a c =
     \<lparr>Cardiologist = (\<lambda>medical_report api_key. answering (Inr a)),
      Psychologist = (\<lambda>medical_report api_key. answering (Inl (Exception ''quota exceeded''))),
      Pulmonologist = (\<lambda>medical_report api_key. answering (Inr c)),
      MultidisciplinaryTeam = (\<lambda>x y z api_key. answering (Inr None))\<rparr>"


definition rejecting_psychologist :: "response \<Rightarrow> response \<Rightarrow> Agents" where
  "rejecting_psychologist a c =
     \<lparr>Cardiologist = (\<lambda>medical_report api_key. answering (Inr a)),
      Psychologist = (\<lambda>medical_report api_key. Inl (Exception ''API key not valid'')),
      Pulmonologist = (\<lambda>medical_report api_key. answering (Inr c)),
      MultidisciplinaryTeam = (\<lambda>x y z api_key. answering (Inr None))\<rparr>"

section \<open>Facts about the model\<close>

lemma mset_remove_nth:
  "j < length xs \<Longrightarrow> add_mset (xs ! j) (mset (remove_nth j xs)) = mset xs"
proof -
  assume "j < length xs"
  then have "xs = take j xs @ xs ! j # drop (Suc j) xs"
    by (rule id_take_nth_drop)
  then have "mset xs = mset (take j xs @ xs ! j # drop (Suc j) xs)"
    by simp
  then show ?thesis
    by (simp add: remove_nth_def)
qed

lemma mset_as_completed: "mset (as_completed fs sched) = mset fs"
proof (induction fs sched rule: as_completed.induct)
  case (3 f fs i sched)
  let ?j = "i mod length (f # fs)"
  have j: "?j < length (f # fs)" by simp
  from "3.IH" [of ?j] have "mset (as_completed (remove_nth ?j (f # fs)) sched) = mset (remove_nth ?j (f # fs))"
    by simp
  with mset_remove_nth [OF j] show ?case
    by (simp add: Let_def del: length_Cons)
qed simp_all

lemma set_as_completed: "set (as_completed fs sched) = set fs"
  using mset_as_completed [of fs sched] by (metis set_mset_mset)

lemma length_as_completed: "length (as_completed fs sched) = length fs"
  using mset_as_completed [of fs sched] by (metis size_mset)

lemma as_completed_complete:
  "mset ys = mset fs \<Longrightarrow> \<exists>sched. as_completed fs sched = ys"
proof (induction ys arbitrary: fs)
  case Nil
  then have "fs = []" by simp
  then show ?case by simp
next
  case (Cons y ys)
  then have "y \<in> set fs"
    by (metis list.set_intros(1) mset_eq_setD)
  then obtain j where j: "j < length fs" "fs ! j = y"
    by (auto simp: in_set_conv_nth)
  then obtain f fs' where fs: "fs = f # fs'"
    by (cases fs) auto
  from mset_remove_nth [OF j(1)] j(2) Cons.prems
  have "add_mset y (mset ys) = add_mset y (mset (remove_nth j fs))"
    by simp
  then have "mset ys = mset (remove_nth j fs)"
    by simp
  from Cons.IH [OF this] obtain sched where "as_completed (remove_nth j fs) sched = ys"
    by blast
  with j have "as_completed fs (j # sched) = y # ys"
    unfolding fs by (simp add: Let_def del: length_Cons nth_Cons_Suc)
  then show ?case
    by blast
qed

lemma collect_messages: "messages (snd (collect fs acc c s)) = messages s"
  by (induction fs acc c s rule: collect.induct)
     (auto split: sum.splits simp: progress_def status_text_text_def)

lemma collect_calls: "calls (snd (collect fs acc c s)) = calls s"
  by (induction fs acc c s rule: collect.induct)
     (auto split: sum.splits simp: progress_def status_text_text_def)

lemma collect_progress_bar:
  "progress_bar (snd (collect fs acc c s)) =
     progress_bar s @ map (\<lambda>i. 20 + (c + Suc i) * 20) [0..<length (returned fs)]"
proof (induction fs acc c s rule: collect.induct)
  case (2 future rest responses completed s)
  show ?case
  proof (cases future)
    case (Inl e)
    then show ?thesis by simp
  next
    case (Inr p)
    obtain n v where p: "p = (n, v)" by (cases p)
    have "map (\<lambda>i. 20 + (completed + Suc i) * 20) [0..<Suc (length (returned rest))] =
      (20 + (completed + 1) * 20) # map (\<lambda>i. 20 + (completed + 1 + Suc i) * 20) [0..<length (returned rest)]"
      by (simp add: upt_conv_Cons map_Suc_upt [symmetric] del: upt_Suc)
    with "2.IH" [OF Inr p [symmetric]] Inr p show ?thesis
      by (simp add: progress_def status_text_text_def del: upt_Suc)
  qed
qed simp

lemma collect_status_text:
  "status_text (snd (collect fs acc c s)) =
     status_text s @ map (\<lambda>(n, v). ''Completed '' @ n @ '' analysis...'') (returned fs)"
proof (induction fs acc c s rule: collect.induct)
  case (2 future rest responses completed s)
  then show ?case
    by (cases future) (auto simp: progress_def status_text_text_def)
qed simp

lemma collect_fst: "fst (collect fs acc c s) = gathered fs acc"
proof (induction fs acc c s rule: collect.induct)
  case (2 future rest responses completed s)
  then show ?case
    by (cases future) auto
qed simp

lemma gathered_raised:
  "Inl e \<in> set fs \<Longrightarrow> \<exists>e'. gathered fs acc = Inl e' \<and> Inl e' \<in> set fs"
  by (induction fs acc rule: gathered.induct) auto

lemma returned_all: "\<forall>f\<in>set fs. \<not> isl f \<Longrightarrow> map Inr (returned fs) = fs"
  by (induction fs rule: returned.induct) auto

lemma returned_length: "length (returned fs) \<le> length fs"
  by (induction fs rule: returned.induct) auto

lemma returned_raised: "Inl e \<in> set fs \<Longrightarrow> length (returned fs) < length fs"
proof (induction fs rule: returned.induct)
  case (3 p fs)
  then show ?case by auto
qed auto

lemma update_fresh: "k \<notin> fst ` set al \<Longrightarrow> AList.update k v al = al @ [(k, v)]"
  by (induction al) auto

lemma gathered_returned:
  "distinct (map fst acc @ map fst ps) \<Longrightarrow> gathered (map Inr ps) acc = Inr (acc @ ps)"
proof (induction ps arbitrary: acc)
  case (Cons p ps)
  obtain n v where p: "p = (n, v)" by (cases p)
  from Cons.prems p have fresh: "n \<notin> fst ` set acc" by auto
  from Cons.prems p have "distinct (map fst (acc @ [(n, v)]) @ map fst ps)" by auto
  from Cons.IH [OF this] show ?case
    by (simp add: p update_fresh [OF fresh])
qed simp

lemma get_response_result:
  "result (get_response n a) = (case outcomes a 0 of Inl e \<Rightarrow> Inl e | Inr v \<Rightarrow> Inr (n, v))"
  by (simp add: get_response_def run_def split: sum.splits)

lemma get_response_invocations: "invocations (get_response n a) = [RunCall n]"
  by (simp add: get_response_def run_def split: sum.splits)

lemma get_response_warnings:
  "warnings (get_response n a) =
     (if outcomes a 0 = Inr None then [Warning (warning_text n)] else [])"
  by (auto simp add: get_response_def run_def split: sum.splits)

lemma submitted_invocations:
  "concat (map invocations (submitted ags)) = map (\<lambda>(n, a). RunCall n) ags"
  by (induction ags) (auto simp: submitted_def get_response_invocations)

lemma run_executor_calls:
  "calls (snd (run_executor ags returning sched s)) = calls s @ map (\<lambda>(n, a). RunCall n) ags"
  using submitted_invocations [of ags]
  by (simp add: run_executor_def Let_def collect_calls called_def submitted_def)

lemma run_executor_messages:
  "messages (snd (run_executor ags returning sched s)) =
     messages s @ concat (map warnings (as_completed (submitted ags) returning))"
  by (simp add: run_executor_def Let_def collect_messages called_def submitted_def)

lemma run_executor_progress_bar:
  "progress_bar (snd (run_executor ags returning sched s)) =
     progress_bar s @ loop_progress (length (returned (yielded ags sched)))"
  by (simp add: run_executor_def Let_def collect_progress_bar called_def yielded_def submitted_def
      loop_progress_def)

lemma run_executor_status_text:
  "status_text (snd (run_executor ags returning sched s)) =
     status_text s @ loop_status (returned (yielded ags sched))"
  by (simp add: run_executor_def Let_def collect_status_text called_def yielded_def submitted_def
      loop_status_def)

lemma run_executor_fst:
  "fst (run_executor ags returning sched s) = gathered (yielded ags sched) []"
  by (simp add: run_executor_def Let_def yielded_def submitted_def collect_fst)

lemma run_executor_snd:
  "snd (run_executor ags returning sched s) =
     \<lparr>progress_bar = progress_bar s @ loop_progress (length (returned (yielded ags sched))),
      status_text = status_text s @ loop_status (returned (yielded ags sched)),
      messages = messages s @ concat (map warnings (as_completed (submitted ags) returning)),
      calls = calls s @ map (\<lambda>(n, a). RunCall n) ags\<rparr>"
  by (rule effects.equality)
     (simp_all add: run_executor_progress_bar run_executor_status_text run_executor_messages
        run_executor_calls)

lemma yielded_mset:
  "mset (yielded ags sched) =
     mset (map (\<lambda>(n, a). case outcomes a 0 of Inl e \<Rightarrow> Inl e | Inr v \<Rightarrow> Inr (n, v)) ags)"
proof -
  have "map result (submitted ags) =
      map (\<lambda>(n, a). case outcomes a 0 of Inl e \<Rightarrow> Inl e | Inr v \<Rightarrow> Inr (n, v)) ags"
    by (induction ags) (auto simp: submitted_def get_response_result)
  moreover have "mset (yielded ags sched) = image_mset result (mset (as_completed (submitted ags) sched))"
    by (simp add: yielded_def)
  ultimately show ?thesis
    by (simp only: mset_as_completed flip: mset_map)
qed

lemma yielded_length: "length (yielded ags sched) = length ags"
  by (simp add: yielded_def length_as_completed submitted_def)

lemma yielded_raised:
  assumes "Inl e \<in> set (yielded ags sched)"
  shows "\<exists>(n, a)\<in>set ags. outcomes a 0 = Inl e"
proof -
  from assms have "Inl e \<in># mset (yielded ags sched)"
    by simp
  then have "Inl e \<in> set (map (\<lambda>(n, a). case outcomes a 0 of Inl e \<Rightarrow> Inl e | Inr v \<Rightarrow> Inr (n, v)) ags)"
    by (simp only: yielded_mset set_mset_mset)
  then show ?thesis
    by (fastforce split: sum.splits)
qed

lemma raised_yielded:
  assumes "(n, a) \<in> set ags" and "outcomes a 0 = Inl e"
  shows "Inl e \<in> set (yielded ags sched)"
proof -
  from assms have "Inl e \<in> set (map (\<lambda>(n, a). case outcomes a 0 of Inl e \<Rightarrow> Inl e | Inr v \<Rightarrow> Inr (n, v)) ags)"
    by force
  then have "Inl e \<in># mset (yielded ags sched)"
    by (simp only: yielded_mset set_mset_mset)
  then show ?thesis
    by simp
qed

lemma run_executor_raised:
  assumes "(n, a) \<in> set ags" and "outcomes a 0 = Inl e"
  shows "\<exists>e'. fst (run_executor ags returning sched s) = Inl e' \<and>
           (\<exists>(n', a')\<in>set ags. outcomes a' 0 = Inl e')"
    and "length (returned (yielded ags sched)) < length ags"
proof -
  note mem = raised_yielded [OF assms, of sched]
  from gathered_raised [OF mem, of "[]"] obtain e' where
    "gathered (yielded ags sched) [] = Inl e'" "Inl e' \<in> set (yielded ags sched)"
    by blast
  with yielded_raised [of e' ags sched]
  show "\<exists>e'. fst (run_executor ags returning sched s) = Inl e' \<and>
           (\<exists>(n', a')\<in>set ags. outcomes a' 0 = Inl e')"
    by (auto simp: run_executor_fst)
  from returned_raised [OF mem] show "length (returned (yielded ags sched)) < length ags"
    by (simp add: yielded_length)
qed

lemma mset_returned_Inr:
  fixes fs :: "('e + 'a) list"
  assumes "mset fs = mset (map Inr ps)"
  shows "map Inr (returned fs) = fs" and "mset (returned fs) = mset ps"
proof -
  from assms have "set fs = set (map Inr ps)"
    by (rule mset_eq_setD)
  then have "\<forall>f\<in>set fs. \<not> isl f"
    by auto
  then show fs: "map Inr (returned fs) = fs"
    by (rule returned_all)
  have "mset (map (Inr :: 'a \<Rightarrow> 'e + 'a) (returned fs)) = mset fs"
    using fs by (rule arg_cong)
  from this assms have "mset (map (Inr :: 'a \<Rightarrow> 'e + 'a) (returned fs)) = mset (map Inr ps)"
    by (rule trans)
  then have "image_mset projr (mset (map (Inr :: 'a \<Rightarrow> 'e + 'a) (returned fs))) =
      image_mset projr (mset (map (Inr :: 'a \<Rightarrow> 'e + 'a) ps))"
    by (rule arg_cong)
  then show "mset (returned fs) = mset ps"
    by (simp add: image_mset.compositionality comp_def)
qed

lemma run_executor_returned:
  assumes d: "distinct (map fst ags)" and ok: "\<forall>(n, a)\<in>set ags. \<not> isl (outcomes a 0)"
  shows "\<exists>rs. fst (run_executor ags returning sched s) = Inr rs \<and> mset rs = mset (results ags)
           \<and> returned (yielded ags sched) = rs"
proof -
  let ?fs = "yielded ags sched"
  let ?rs = "returned ?fs"
  have "(case outcomes a 0 of Inl e \<Rightarrow> Inl e | Inr v \<Rightarrow> Inr (n, v)) = Inr (n, projr (outcomes a 0))"
    if "(n, a) \<in> set ags" for n a
  proof -
    from ok that have "\<not> isl (outcomes a 0)" by auto
    then show ?thesis by (cases "outcomes a 0") simp_all
  qed
  then have "map (\<lambda>(n, a). case outcomes a 0 of Inl e \<Rightarrow> Inl e | Inr v \<Rightarrow> Inr (n, v)) ags =
      map Inr (results ags)"
    by (auto simp: results_def)
  then have m: "mset ?fs = mset (map Inr (results ags))"
    by (simp only: yielded_mset)
  note fs = mset_returned_Inr(1) [OF m] and mr = mset_returned_Inr(2) [OF m]
  have keys: "map fst (results ags) = map fst ags"
    by (induction ags) (auto simp: results_def)
  have "mset (map fst ?rs) = mset (map fst (results ags))"
    using mr by (simp only: mset_map)
  from mset_eq_imp_distinct_iff [OF this] have "distinct (map fst ?rs)"
    using d by (simp only: keys)
  then have "gathered (map Inr ?rs) [] = Inr ([] @ ?rs)"
    by (intro gathered_returned) simp
  with fs mr show ?thesis
    by (simp add: run_executor_fst)
qed

lemma constructed_SomeD:
  assumes "constructed M r k = Some ags"
  obtains ca pa qa where "Cardiologist M r k = Inr ca" "Psychologist M r k = Inr pa"
    "Pulmonologist M r k = Inr qa"
    "ags = [(''Cardiologist'', ca), (''Psychologist'', pa), (''Pulmonologist'', qa)]"
  using assms by (auto simp: constructed_def split: sum.splits)

lemma constructed_SomeI:
  assumes "Cardiologist M r k = Inr ca" "Psychologist M r k = Inr pa" "Pulmonologist M r k = Inr qa"
  shows "constructed M r k = Some [(''Cardiologist'', ca), (''Psychologist'', pa), (''Pulmonologist'', qa)]"
  using assms by (simp add: constructed_def)

lemma constructed_names:
  assumes "constructed M r k = Some ags"
  shows "map fst ags = [''Cardiologist'', ''Psychologist'', ''Pulmonologist'']"
  using assms by (rule constructed_SomeD) simp

lemma constructed_distinct: "constructed M r k = Some ags \<Longrightarrow> distinct (map fst ags)"
  by (simp add: constructed_names)

lemma constructed_length:
  assumes "constructed M r k = Some ags"
  shows "length ags = 3"
  using assms by (rule constructed_SomeD) simp

lemma construct_agents_constructed:
  assumes "constructed M r k = Some ags"
  shows "construct_agents M r k s = (Inr ags, called (agents_constructed r k) s)"
  using assms
  by (rule constructed_SomeD)
     (simp add: construct_agents_def agents_constructed_def called_def Let_def)

lemma construct_agents_failed:
  assumes "constructed M r k = None"
  shows "\<exists>e n. (n = 1 \<or> n = 2 \<or> n = 3) \<and>
           (Cardiologist M r k = Inl e \<or> Psychologist M r k = Inl e \<or> Pulmonologist M r k = Inl e) \<and>
           construct_agents M r k s = (Inl e, called (take n (agents_constructed r k)) s)"
proof (cases "Cardiologist M r k")
  case (Inl e)
  then have "construct_agents M r k s = (Inl e, called (take 1 (agents_constructed r k)) s)"
    by (simp add: construct_agents_def agents_constructed_def called_def Let_def)
  with Inl show ?thesis by blast
next
  case ca: (Inr ca)
  show ?thesis
  proof (cases "Psychologist M r k")
    case (Inl e)
    with ca have "construct_agents M r k s = (Inl e, called (take 2 (agents_constructed r k)) s)"
      by (simp add: construct_agents_def agents_constructed_def called_def Let_def)
    with Inl show ?thesis by blast
  next
    case pa: (Inr pa)
    show ?thesis
    proof (cases "Pulmonologist M r k")
      case (Inl e)
      with ca pa have "construct_agents M r k s = (Inl e, called (take 3 (agents_constructed r k)) s)"
        by (simp add: construct_agents_def agents_constructed_def called_def Let_def)
      with Inl show ?thesis by blast
    next
      case (Inr qa)
      with ca pa assms show ?thesis
        by (simp add: constructed_def)
    qed
  qed
qed

lemma try_body_no_agents:
  assumes "constructed M r k = None"
  shows "\<exists>e n. (n = 1 \<or> n = 2 \<or> n = 3) \<and>
           (Cardiologist M r k = Inl e \<or> Psychologist M r k = Inl e \<or> Pulmonologist M r k = Inl e) \<and>
           try_body M returning sched r k
             \<lparr>progress_bar = [0], status_text = [], messages = [], calls = []\<rparr> =
           (Inl e, called (take n (agents_constructed r k)) before_agents)"
proof -
  have s1: "progress 10 (status_text_text ''Initializing AI agents...''
      \<lparr>progress_bar = [0], status_text = [], messages = [], calls = []\<rparr>) = before_agents"
    by (simp add: progress_def status_text_text_def before_agents_def)
  from construct_agents_failed [OF assms, of before_agents] show ?thesis
    unfolding try_body_def Let_def s1 by force
qed

lemma try_body_unfold:
  assumes "constructed M r k = Some ags"
  shows "try_body M returning sched r k
           \<lparr>progress_bar = [0], status_text = [], messages = [], calls = []\<rparr> =
     (case gathered (yielded ags sched) [] of
        Inl e \<Rightarrow> (Inl e, after_pool ags returning sched r k)
      | Inr responses \<Rightarrow>
          if None \<in> set (map snd responses)
          then (Inr (None, None),
                st_error ''Error: One or more agents failed to generate a response. Check API key and quota.''
                  (after_pool ags returning sched r k))
          else synthesis M k responses
                 (status_text_text ''Generating multidisciplinary team analysis...''
                   (progress 80 (after_pool ags returning sched r k))))"
proof -
  let ?s1 = "progress 10 (status_text_text ''Initializing AI agents...''
      \<lparr>progress_bar = [0], status_text = [], messages = [], calls = []\<rparr>)"
  let ?s4 = "status_text_text ''Running specialist consultations...''
      (progress 20 (called (agents_constructed r k) ?s1))"
  have snd5: "snd (run_executor ags returning sched ?s4) = after_pool ags returning sched r k"
    by (simp add: run_executor_snd after_pool_def progress_def status_text_text_def called_def)
  have fst5: "fst (run_executor ags returning sched ?s4) = gathered (yielded ags sched) []"
    by (rule run_executor_fst)
  have "run_executor ags returning sched ?s4 =
      (gathered (yielded ags sched) [], after_pool ags returning sched r k)"
    using snd5 fst5 by (metis prod.collapse)
  then show ?thesis
    by (simp add: try_body_def Let_def construct_agents_constructed [OF assms] split: sum.splits)
qed

lemma synthesis_unfold:
  assumes "mset rs = mset [(''Cardiologist'', c), (''Psychologist'', p), (''Pulmonologist'', q)]"
  shows "synthesis M k rs
           (status_text_text ''Generating multidisciplinary team analysis...''
             (progress 80 (after_pool ags returning sched r k))) =
         (case MultidisciplinaryTeam M c p q k of
            Inl e \<Rightarrow> (Inl e, before_team ags returning sched r k c p q)
          | Inr team_agent \<Rightarrow>
         (case outcomes team_agent 0 of
            Inl e \<Rightarrow> (Inl e, before_synthesis ags returning sched r k c p q)
          | Inr final_diagnosis \<Rightarrow>
              if final_diagnosis = None
              then (Inr (None, None),
                    st_error ''Error: MultidisciplinaryTeam failed to generate a final diagnosis.''
                      (before_synthesis ags returning sched r k c p q))
              else (Inr (Some rs, final_diagnosis),
                    status_text_text ''Analysis completed successfully!''
                      (progress 100 (before_synthesis ags returning sched r k c p q)))))"
proof -
  from assms have "mset (map fst rs) =
      mset (map fst [(''Cardiologist'', c), (''Psychologist'', p), (''Pulmonologist'', q)])"
    by (simp only: mset_map)
  from mset_eq_imp_distinct_iff [OF this] have d: "distinct (map fst rs)"
    by simp
  from assms have "set rs = set [(''Cardiologist'', c), (''Psychologist'', p), (''Pulmonologist'', q)]"
    by (rule mset_eq_setD)
  then have mem: "(''Cardiologist'', c) \<in> set rs" "(''Psychologist'', p) \<in> set rs"
      "(''Pulmonologist'', q) \<in> set rs"
    by simp_all
  have "getitem rs ''Cardiologist'' = Inr c" "getitem rs ''Psychologist'' = Inr p"
      "getitem rs ''Pulmonologist'' = Inr q"
    using map_of_is_SomeI [OF d mem(1)] map_of_is_SomeI [OF d mem(2)] map_of_is_SomeI [OF d mem(3)]
    by (simp_all add: getitem_def)
  then show ?thesis
    by (simp add: synthesis_def before_synthesis_def before_team_def run_def Let_def
        split: sum.splits)
qed

lemma process_medical_report_no_agents:
  assumes "constructed M r k = None"
  shows "\<exists>e n. (n = 1 \<or> n = 2 \<or> n = 3) \<and>
           (Cardiologist M r k = Inl e \<or> Psychologist M r k = Inl e \<or> Pulmonologist M r k = Inl e) \<and>
           process_medical_report M returning sched r k =
             except_Exception e (called (take n (agents_constructed r k)) before_agents)"
proof -
  from try_body_no_agents [OF assms, of returning sched] obtain e n where
    "n = 1 \<or> n = 2 \<or> n = 3"
    "Cardiologist M r k = Inl e \<or> Psychologist M r k = Inl e \<or> Pulmonologist M r k = Inl e"
    "try_body M returning sched r k
       \<lparr>progress_bar = [0], status_text = [], messages = [], calls = []\<rparr> =
     (Inl e, called (take n (agents_constructed r k)) before_agents)"
    by blast
  then show ?thesis
    unfolding process_medical_report_def Let_def by force
qed

lemma process_medical_report_raised:
  assumes "constructed M r k = Some ags" and "(n, a) \<in> set ags" and "outcomes a 0 = Inl e"
  shows "\<exists>e'. (\<exists>(n', a')\<in>set ags. outcomes a' 0 = Inl e') \<and>
           process_medical_report M returning sched r k =
             except_Exception e' (after_pool ags returning sched r k)"
    and "length (returned (yielded ags sched)) < 3"
proof -
  from run_executor_raised(1) [OF assms(2,3), of returning sched]
  obtain e' where e': "gathered (yielded ags sched) [] = Inl e'"
      "\<exists>(n', a')\<in>set ags. outcomes a' 0 = Inl e'"
    by (auto simp: run_executor_fst)
  then have "process_medical_report M returning sched r k =
      except_Exception e' (after_pool ags returning sched r k)"
    by (simp add: process_medical_report_def try_body_unfold [OF assms(1)])
  with e'(2) show "\<exists>e'. (\<exists>(n', a')\<in>set ags. outcomes a' 0 = Inl e') \<and>
           process_medical_report M returning sched r k =
             except_Exception e' (after_pool ags returning sched r k)"
    by blast
  from run_executor_raised(2) [OF assms(2,3), of sched] constructed_length [OF assms(1)]
  show "length (returned (yielded ags sched)) < 3"
    by simp
qed

lemma process_medical_report_returned:
  assumes "Cardiologist M r k = Inr ca" and "Psychologist M r k = Inr pa"
    and "Pulmonologist M r k = Inr qa"
    and "outcomes ca 0 = Inr c" and "outcomes pa 0 = Inr p" and "outcomes qa 0 = Inr q"
    and ags: "ags = [(''Cardiologist'', ca), (''Psychologist'', pa), (''Pulmonologist'', qa)]"
  shows "\<exists>rs. mset rs = mset [(''Cardiologist'', c), (''Psychologist'', p), (''Pulmonologist'', q)] \<and>
           returned (yielded ags sched) = rs \<and>
           process_medical_report M returning sched r k =
             (if c = None \<or> p = None \<or> q = None
              then (Inr (None, None),
                    st_error ''Error: One or more agents failed to generate a response. Check API key and quota.''
                      (after_pool ags returning sched r k))
              else case MultidisciplinaryTeam M c p q k of
                     Inl e \<Rightarrow> except_Exception e (before_team ags returning sched r k c p q)
                   | Inr team_agent \<Rightarrow>
                  (case outcomes team_agent 0 of
                     Inl e \<Rightarrow> except_Exception e (before_synthesis ags returning sched r k c p q)
                   | Inr None \<Rightarrow>
                       (Inr (None, None),
                        st_error ''Error: MultidisciplinaryTeam failed to generate a final diagnosis.''
                          (before_synthesis ags returning sched r k c p q))
                   | Inr (Some d) \<Rightarrow>
                       (Inr (Some rs, Some d),
                        status_text_text ''Analysis completed successfully!''
                          (progress 100 (before_synthesis ags returning sched r k c p q)))))"
proof -
  have con: "constructed M r k = Some ags"
    unfolding ags using assms(1-3) by (rule constructed_SomeI)
  have d: "distinct (map fst ags)"
    by (simp add: ags)
  have ok: "\<forall>(n, a)\<in>set ags. \<not> isl (outcomes a 0)"
    using assms(4-6) by (simp add: ags)
  have res: "results ags =
      [(''Cardiologist'', c), (''Psychologist'', p), (''Pulmonologist'', q)]"
    using assms(4-6) by (simp add: results_def ags)
  from run_executor_returned [OF d ok, of returning sched] obtain rs where
    g: "gathered (yielded ags sched) [] = Inr rs" and
    m: "mset rs = mset [(''Cardiologist'', c), (''Psychologist'', p), (''Pulmonologist'', q)]" and
    ret: "returned (yielded ags sched) = rs"
    by (auto simp: run_executor_fst res)
  from m have "set rs = set [(''Cardiologist'', c), (''Psychologist'', p), (''Pulmonologist'', q)]"
    by (rule mset_eq_setD)
  then have "snd ` set rs = {c, p, q}"
    by simp
  then have none: "None \<in> set (map snd rs) \<longleftrightarrow> c = None \<or> p = None \<or> q = None"
    by auto
  have "process_medical_report M returning sched r k =
             (if c = None \<or> p = None \<or> q = None
              then (Inr (None, None),
                    st_error ''Error: One or more agents failed to generate a response. Check API key and quota.''
                      (after_pool ags returning sched r k))
              else case MultidisciplinaryTeam M c p q k of
                     Inl e \<Rightarrow> except_Exception e (before_team ags returning sched r k c p q)
                   | Inr team_agent \<Rightarrow>
                  (case outcomes team_agent 0 of
                     Inl e \<Rightarrow> except_Exception e (before_synthesis ags returning sched r k c p q)
                   | Inr None \<Rightarrow>
                       (Inr (None, None),
                        st_error ''Error: MultidisciplinaryTeam failed to generate a final diagnosis.''
                          (before_synthesis ags returning sched r k c p q))
                   | Inr (Some d) \<Rightarrow>
                       (Inr (Some rs, Some d),
                        status_text_text ''Analysis completed successfully!''
                          (progress 100 (before_synthesis ags returning sched r k c p q)))))"
  proof (cases "c = None \<or> p = None \<or> q = None")
    case True
    with none have "None \<in> set (map snd rs)"
      by simp
    then have "try_body M returning sched r k
        \<lparr>progress_bar = [0], status_text = [], messages = [], calls = []\<rparr> =
        (Inr (None, None),
         st_error ''Error: One or more agents failed to generate a response. Check API key and quota.''
           (after_pool ags returning sched r k))"
      unfolding try_body_unfold [OF con] g by simp
    then show ?thesis
      unfolding process_medical_report_def Let_def if_P [OF True] by simp
  next
    case False
    with none have "None \<notin> set (map snd rs)"
      by simp
    then have tb: "try_body M returning sched r k
        \<lparr>progress_bar = [0], status_text = [], messages = [], calls = []\<rparr> =
        synthesis M k rs
          (status_text_text ''Generating multidisciplinary team analysis...''
            (progress 80 (after_pool ags returning sched r k)))"
      unfolding try_body_unfold [OF con] g by simp
    show ?thesis
    proof (cases "MultidisciplinaryTeam M c p q k")
      case (Inl e)
      then show ?thesis
        unfolding process_medical_report_def Let_def tb synthesis_unfold [OF m] if_not_P [OF False]
        by simp
    next
      case team: (Inr team_agent)
      show ?thesis
      proof (cases "outcomes team_agent 0")
        case (Inl e)
        with team show ?thesis
          unfolding process_medical_report_def Let_def tb synthesis_unfold [OF m] if_not_P [OF False]
          by simp
      next
        case (Inr final_diagnosis)
        with team show ?thesis
          unfolding process_medical_report_def Let_def tb synthesis_unfold [OF m] if_not_P [OF False]
          by (cases final_diagnosis) simp_all
      qed
    qed
  qed
  with m ret show ?thesis
    by blast
qed

lemma loop_progress_take: "j \<le> 3 \<Longrightarrow> loop_progress j = take j [40, 60, 80]"
proof -
  assume "j \<le> 3"
  then consider "j = 0" | "j = 1" | "j = 2" | "j = 3"
    by linarith
  then show ?thesis
    by cases (simp_all add: loop_progress_def upt_rec)
qed

lemma returned_yielded_le:
  "length ags = 3 \<Longrightarrow> length (returned (yielded ags sched)) \<le> 3"
  using returned_length [of "yielded ags sched"] by (simp add: yielded_length)

lemma after_pool_progress_bar:
  "length ags = 3 \<Longrightarrow>
   progress_bar (after_pool ags returning sched r k) =
     [0, 10, 20] @ take (length (returned (yielded ags sched))) [40, 60, 80]"
  by (simp add: after_pool_def loop_progress_take [OF returned_yielded_le])

lemma after_pool_calls:
  "calls (after_pool [(''Cardiologist'', ca), (''Psychologist'', pa), (''Pulmonologist'', qa)]
       returning sched r k) =
     agents_constructed r k @
     [RunCall ''Cardiologist'', RunCall ''Psychologist'', RunCall ''Pulmonologist'']"
  by (simp add: after_pool_def)

lemma after_pool_messages:
  "messages (after_pool ags returning sched r k) =
     concat (map warnings (as_completed (submitted ags) returning))"
  by (simp add: after_pool_def)

lemma mset_concat_map:
  "mset (concat (map f xs)) = (\<Sum>x\<in>#mset xs. mset (f x))"
  by (induction xs) simp_all

lemma warnings_mset:
  assumes "constructed M r k = Some ags"
  shows "mset (messages (after_pool ags returning sched r k)) =
     mset (map (\<lambda>n. Warning (warning_text n)) (failed_analyzers M r k))"
proof -
  have "mset (concat (map warnings (as_completed (submitted ags) returning))) =
      (\<Sum>x\<in>#mset (as_completed (submitted ags) returning). mset (warnings x))"
    by (rule mset_concat_map)
  also have "\<dots> = (\<Sum>x\<in>#mset (submitted ags). mset (warnings x))"
    by (simp only: mset_as_completed)
  also have "\<dots> = mset (map (\<lambda>n. Warning (warning_text n)) (failed_analyzers M r k))"
    using assms
    by (rule constructed_SomeD)
       (simp add: submitted_def failed_analyzers_def assms get_response_warnings)
  finally show ?thesis
    by (simp only: after_pool_messages)
qed

lemma process_medical_report_shapes [case_names no_agents fault absent synthesis]:
  obtains
    (no_agents) e n where
      "constructed M r k = None"
      "Cardiologist M r k = Inl e \<or> Psychologist M r k = Inl e \<or> Pulmonologist M r k = Inl e"
      "n = 1 \<or> n = 2 \<or> n = 3"
      "process_medical_report M returning sched r k =
         except_Exception e (called (take n (agents_constructed r k)) before_agents)"
  | (fault) ags e where
      "constructed M r k = Some ags"
      "\<exists>(n, a)\<in>set ags. outcomes a 0 = Inl e"
      "length (returned (yielded ags sched)) < 3"
      "process_medical_report M returning sched r k =
         except_Exception e (after_pool ags returning sched r k)"
  | (absent) ags where
      "constructed M r k = Some ags"
      "failed_analyzers M r k \<noteq> []"
      "\<forall>(n, a)\<in>set ags. \<not> isl (outcomes a 0)"
      "length (returned (yielded ags sched)) = 3"
      "process_medical_report M returning sched r k =
         (Inr (None, None),
          st_error ''Error: One or more agents failed to generate a response. Check API key and quota.''
            (after_pool ags returning sched r k))"
  | (synthesis) ags ca pa qa c p q rs where
      "ags = [(''Cardiologist'', ca), (''Psychologist'', pa), (''Pulmonologist'', qa)]"
      "Cardiologist M r k = Inr ca" "Psychologist M r k = Inr pa" "Pulmonologist M r k = Inr qa"
      "outcomes ca 0 = Inr (Some c)" "outcomes pa 0 = Inr (Some p)" "outcomes qa 0 = Inr (Some q)"
      "mset rs = mset [(''Cardiologist'', Some c), (''Psychologist'', Some p), (''Pulmonologist'', Some q)]"
      "length (returned (yielded ags sched)) = 3"
      "process_medical_report M returning sched r k =
         (case MultidisciplinaryTeam M (Some c) (Some p) (Some q) k of
            Inl e \<Rightarrow>
              except_Exception e (before_team ags returning sched r k (Some c) (Some p) (Some q))
          | Inr team_agent \<Rightarrow>
         (case outcomes team_agent 0 of
            Inl e \<Rightarrow>
              except_Exception e (before_synthesis ags returning sched r k (Some c) (Some p) (Some q))
          | Inr None \<Rightarrow>
              (Inr (None, None),
               st_error ''Error: MultidisciplinaryTeam failed to generate a final diagnosis.''
                 (before_synthesis ags returning sched r k (Some c) (Some p) (Some q)))
          | Inr (Some d) \<Rightarrow>
              (Inr (Some rs, Some d),
               status_text_text ''Analysis completed successfully!''
                 (progress 100
                   (before_synthesis ags returning sched r k (Some c) (Some p) (Some q))))))"
proof (cases "constructed M r k")
  case None
  from process_medical_report_no_agents [OF None, of returning sched] no_agents [OF None]
  show ?thesis
    by blast
next
  case (Some ags)
  from Some obtain ca pa qa where con: "Cardiologist M r k = Inr ca" "Psychologist M r k = Inr pa"
      "Pulmonologist M r k = Inr qa" and
    ags: "ags = [(''Cardiologist'', ca), (''Psychologist'', pa), (''Pulmonologist'', qa)]"
    by (rule constructed_SomeD)
  show ?thesis
  proof (cases "\<exists>(n, a)\<in>set ags. isl (outcomes a 0)")
    case True
    then obtain n a e where na: "(n, a) \<in> set ags" "outcomes a 0 = Inl e"
      by (auto simp: isl_def)
    from process_medical_report_raised [OF Some na] fault [OF Some]
    show ?thesis
      by blast
  next
    case False
    then obtain c p q where runs: "outcomes ca 0 = Inr c" "outcomes pa 0 = Inr p"
        "outcomes qa 0 = Inr q"
      by (auto simp: ags isl_def) (metis sum.exhaust)
    from process_medical_report_returned [OF con runs ags] obtain rs where
      m: "mset rs = mset [(''Cardiologist'', c), (''Psychologist'', p), (''Pulmonologist'', q)]" and
      ret: "returned (yielded ags sched) = rs" and
      pmr: "process_medical_report M returning sched r k =
             (if c = None \<or> p = None \<or> q = None
              then (Inr (None, None),
                    st_error ''Error: One or more agents failed to generate a response. Check API key and quota.''
                      (after_pool ags returning sched r k))
              else case MultidisciplinaryTeam M c p q k of
                     Inl e \<Rightarrow> except_Exception e (before_team ags returning sched r k c p q)
                   | Inr team_agent \<Rightarrow>
                  (case outcomes team_agent 0 of
                     Inl e \<Rightarrow> except_Exception e (before_synthesis ags returning sched r k c p q)
                   | Inr None \<Rightarrow>
                       (Inr (None, None),
                        st_error ''Error: MultidisciplinaryTeam failed to generate a final diagnosis.''
                          (before_synthesis ags returning sched r k c p q))
                   | Inr (Some d) \<Rightarrow>
                       (Inr (Some rs, Some d),
                        status_text_text ''Analysis completed successfully!''
                          (progress 100 (before_synthesis ags returning sched r k c p q)))))"
      by blast
    from m have "size (mset rs) = 3"
      by simp
    with ret have len: "length (returned (yielded ags sched)) = 3"
      by simp
    show ?thesis
    proof (cases "c = None \<or> p = None \<or> q = None")
      case True
      from True runs have "failed_analyzers M r k \<noteq> []"
        by (auto simp: failed_analyzers_def Some ags)
      moreover from False have "\<forall>(n, a)\<in>set ags. \<not> isl (outcomes a 0)"
        by auto
      ultimately show ?thesis
        using absent [OF Some _ _ len] pmr True by simp
    next
      case nn: False
      then obtain c' p' q' where eq: "c = Some c'" "p = Some p'" "q = Some q'"
        by auto
      show ?thesis
        using con runs m len pmr unfolding eq
        by (intro synthesis [of ags ca pa qa c' p' q' rs] ags) simp_all
    qed
  qed
qed

lemmas effects_defs = progress_def status_text_text_def st_error_def called_def
  before_synthesis_def before_team_def before_agents_def

lemma except_Exception_fst:
  "fst (except_Exception e s) = (if is_Exception e then Inr (None, None) else Inl e)"
  by (simp add: except_Exception_def)

lemma except_Exception_progress_bar: "progress_bar (snd (except_Exception e s)) = progress_bar s"
  by (simp add: except_Exception_def st_error_def)

lemma except_Exception_calls: "calls (snd (except_Exception e s)) = calls s"
  by (simp add: except_Exception_def st_error_def)

lemma except_Exception_messages:
  "messages (snd (except_Exception e s)) =
     messages s @
     (if is_Exception e then [Error (''An error occurred during processing: '' @ str e)] else [])"
  by (simp add: except_Exception_def st_error_def)

lemma except_Exception_status_text: "status_text (snd (except_Exception e s)) = status_text s"
  by (simp add: except_Exception_def st_error_def)

lemmas except_Exception_simps = except_Exception_fst except_Exception_progress_bar
  except_Exception_calls except_Exception_messages except_Exception_status_text

lemma take_phase_cases:
  fixes j :: nat
  obtains "j = 0" | "j = 1" | "j = 2" | "3 \<le> j"
  by linarith

lemma phase_sorted: "sorted ([0, 10, 20] @ take j [40, 60, 80 :: nat])"
  by (cases j rule: take_phase_cases) simp_all

lemma phase_last: "j < 3 \<Longrightarrow> last ([0, 10, 20] @ take j [40, 60, 80 :: nat]) \<noteq> 100"
  by (cases j rule: take_phase_cases) simp_all

lemma phase_top: "j \<le> 3 \<Longrightarrow> 80 \<in> set (take j [40, 60, 80 :: nat]) \<longleftrightarrow> j = 3"
  by (cases j rule: take_phase_cases) simp_all

lemma take_constructed_calls:
  assumes "n = 1 \<or> n = 2 \<or> n = 3"
  shows "count_list (take n (agents_constructed r k)) (RunCall x) = 0"
    and "take 1 (take n (agents_constructed r k)) = [AnalyzerInit ''Cardiologist'' r k]"
    and "TeamInit c p q k' \<notin> set (take n (agents_constructed r k))"
  using assms by (auto simp: agents_constructed_def)

lemma ags_length:
  "length [(''Cardiologist'', ca), (''Psychologist'', pa), (''Pulmonologist'', qa :: agent)] = 3"
  by simp


lemma map_of_permuted:
  assumes "mset rs = mset xs" and "mset rs' = mset xs" and "distinct (map fst xs)"
  shows "map_of rs = map_of rs'"
proof -
  from assms(1) have "mset (map fst rs) = mset (map fst xs)"
    by (simp only: mset_map)
  from mset_eq_imp_distinct_iff [OF this] assms(3) have d: "distinct (map fst rs)"
    by simp
  from assms(2) have "mset (map fst rs') = mset (map fst xs)"
    by (simp only: mset_map)
  from mset_eq_imp_distinct_iff [OF this] assms(3) have d': "distinct (map fst rs')"
    by simp
  from assms(1,2) have "set rs = set rs'"
    by (metis mset_eq_setD)
  with d d' show ?thesis
    by (simp add: map_of_inject_set)
qed

lemma no_warnings:
  assumes "constructed M r k = Some ags" and "failed_analyzers M r k = []"
  shows "messages (after_pool ags returning sched r k) = []"
  using warnings_mset [OF assms(1), of returning sched] assms(2) by simp

lemma warnings_only:
  assumes "constructed M r k = Some ags"
  shows "Error t \<notin> set (messages (after_pool ags returning sched r k))"
proof -
  have "set (messages (after_pool ags returning sched r k)) =
      set (map (\<lambda>n. Warning (warning_text n)) (failed_analyzers M r k))"
    using warnings_mset [OF assms, of returning sched] by (rule mset_eq_setD)
  then show ?thesis
    by auto
qed

lemma returned_yielded_full:
  assumes "constructed M r k = Some ags"
  shows "length (returned (yielded ags sched)) = 3 \<longleftrightarrow>
     (\<forall>(n, a)\<in>set ags. \<not> isl (outcomes a 0))"
proof
  assume len: "length (returned (yielded ags sched)) = 3"
  show "\<forall>(n, a)\<in>set ags. \<not> isl (outcomes a 0)"
  proof (rule ccontr)
    assume "\<not> (\<forall>(n, a)\<in>set ags. \<not> isl (outcomes a 0))"
    then obtain n a e where "(n, a) \<in> set ags" "outcomes a 0 = Inl e"
      by (auto simp: isl_def)
    from run_executor_raised(2) [OF this, of sched] len constructed_length [OF assms]
    show False
      by simp
  qed
next
  assume ok: "\<forall>(n, a)\<in>set ags. \<not> isl (outcomes a 0)"
  from run_executor_returned [OF constructed_distinct [OF assms] ok, of returning sched] obtain rs where
    "mset rs = mset (results ags)" "returned (yielded ags sched) = rs"
    by blast
  then have "size (mset (returned (yielded ags sched))) = size (mset (results ags))"
    by simp
  then show "length (returned (yielded ags sched)) = 3"
    by (simp add: results_def constructed_length [OF assms])
qed

text \<open>
  Streamlit accepts integer progress values from 0 to 100 and raises on others. Every value
  the run gives to the progress bar is in this range.
\<close>

lemma progress_values_in_range:
  "set (progress_bar (snd (process_medical_report M returning sched r k))) \<subseteq>
     {0, 10, 20, 40, 60, 80, 100}"
proof -
  have phase: "set (take j [40, 60, 80 :: nat]) \<subseteq> {40, 60, 80}" for j
    using set_take_subset [of j "[40, 60, 80 :: nat]"] by simp
  show ?thesis
  proof (cases rule: process_medical_report_shapes [of M r k returning sched])
    case (no_agents e n)
    then show ?thesis
      by (simp add: except_Exception_simps effects_defs)
  next
    case (fault ags e)
    note len = constructed_length [OF fault(1)]
    from phase show ?thesis
      by (auto simp add: fault(4) except_Exception_simps after_pool_progress_bar [OF len])
  next
    case (absent ags)
    note len = constructed_length [OF absent(1)]
    from absent(4) show ?thesis
      by (simp add: absent(5) st_error_def after_pool_progress_bar [OF len])
  next
    case (synthesis ags ca pa qa c p q rs)
    have len: "length ags = 3"
      by (simp add: synthesis(1))
    note pb = after_pool_progress_bar [OF len, of returning sched r k]
    show ?thesis
    proof (cases "MultidisciplinaryTeam M (Some c) (Some p) (Some q) k")
      case (Inl e)
      with synthesis(9) show ?thesis
        by (simp add: synthesis(10) except_Exception_simps effects_defs pb)
    next
      case team: (Inr team_agent)
      show ?thesis
      proof (cases "outcomes team_agent 0")
        case (Inl e)
        with team synthesis(9) show ?thesis
          by (simp add: synthesis(10) except_Exception_simps effects_defs pb)
      next
        case (Inr d)
        with team synthesis(9) show ?thesis
          by (cases d) (simp_all add: synthesis(10) effects_defs pb)
      qed
    qed
  qed
qed

lemma no_agents_schedule:
  assumes "constructed M r k = None"
  shows "process_medical_report M returning sched r k =
         process_medical_report M returning' sched' r k"
proof -
  let ?s1 = "progress 10 (status_text_text ''Initializing AI agents...''
      \<lparr>progress_bar = [0], status_text = [], messages = [], calls = []\<rparr>)"
  from construct_agents_failed [OF assms, of ?s1] obtain e s2 where
    "construct_agents M r k ?s1 = (Inl e, s2)"
    by blast
  then show ?thesis
    by (simp add: process_medical_report_def try_body_def Let_def)
qed

lemmas run_defs = process_medical_report_def try_body_def run_executor_def construct_agents_def
  get_response_def run_def synthesis_def getitem_def warning_text_def remove_nth_def
  except_Exception_def progress_def status_text_text_def st_error_def called_def Let_def
  answering_def

section \<open>The claims\<close>




text \<open>
  Claim C2, as amended. When at least one analyzer returns \<^verbatim>\<open>None\<close>, the team agent is
  neither constructed nor run (the call log ends with the three analyzer runs), and the run
  returns the pair \<^verbatim>\<open>(None, None)\<close>; the failing analyzers are named by the warnings of
  \<^verbatim>\<open>get_response\<close>: the messages are one warning for each failing analyzer, in some order,
  followed by one error. The one exception is a run in which another analyzer raises outside
  \<^verbatim>\<open>Exception\<close>: that exception may reach the caller, after the same warnings.
\<close>

theorem analyzer_failure_reported:
  assumes "failed_analyzers M r k \<noteq> []"
  shows "calls (snd (process_medical_report M returning sched r k)) =
           agents_constructed r k @
           [RunCall ''Cardiologist'', RunCall ''Psychologist'', RunCall ''Pulmonologist''] \<and>
         (fst (process_medical_report M returning sched r k) = Inr (None, None) \<and>
          (\<exists>ws e. messages (snd (process_medical_report M returning sched r k)) = ws @ [Error e] \<and>
             mset ws = mset (map (\<lambda>n. Warning (warning_text n)) (failed_analyzers M r k))) \<or>
          (\<exists>b. \<not> is_Exception b \<and> raised_by_analyzer M r k b \<and>
             fst (process_medical_report M returning sched r k) = Inl b \<and>
             mset (messages (snd (process_medical_report M returning sched r k))) =
               mset (map (\<lambda>n. Warning (warning_text n)) (failed_analyzers M r k))))"
proof (cases rule: process_medical_report_shapes [of M r k returning sched])
  case (no_agents e n)
  with assms show ?thesis
    by (simp add: failed_analyzers_def)
next
  case (fault ags e)
  from fault(2) have rb: "raised_by_analyzer M r k e"
    by (force simp: raised_by_analyzer_def fault(1))
  note w = warnings_mset [OF fault(1), of returning sched]
  from fault(1) have c: "calls (after_pool ags returning sched r k) =
      agents_constructed r k @
      [RunCall ''Cardiologist'', RunCall ''Psychologist'', RunCall ''Pulmonologist'']"
    by (rule constructed_SomeD) (simp add: after_pool_calls)
  show ?thesis
  proof (cases "is_Exception e")
    case True
    with w c show ?thesis
      by (simp add: fault(4) except_Exception_simps)
  next
    case False
    with w c rb show ?thesis
      by (auto simp add: fault(4) except_Exception_simps)
  qed
next
  case (absent ags)
  note w = warnings_mset [OF absent(1), of returning sched]
  from absent(1) have c: "calls (after_pool ags returning sched r k) =
      agents_constructed r k @
      [RunCall ''Cardiologist'', RunCall ''Psychologist'', RunCall ''Pulmonologist'']"
    by (rule constructed_SomeD) (simp add: after_pool_calls)
  from w c show ?thesis
    by (simp add: absent(5) st_error_def)
next
  case (synthesis ags ca pa qa c p q rs)
  have "constructed M r k = Some ags"
    unfolding synthesis(1) using synthesis(2-4) by (rule constructed_SomeI)
  with synthesis(1,5-7) have "failed_analyzers M r k = []"
    by (simp add: failed_analyzers_def)
  with assms show ?thesis
    by simp
qed

theorem analyzer_failure_reported_witness:
  "failed_analyzers (specialists (Some ''ok-A'') None (Some ''ok-C'') (Some ''combined verdict''))
      ''patient has elevated heart rate'' ''key'' = [''Psychologist''] \<and>
   fst (process_medical_report
      (specialists (Some ''ok-A'') None (Some ''ok-C'') (Some ''combined verdict''))
      [1] [2] ''patient has elevated heart rate'' ''key'') = Inr (None, None) \<and>
   messages (snd (process_medical_report
      (specialists (Some ''ok-A'') None (Some ''ok-C'') (Some ''combined verdict''))
      [1] [2] ''patient has elevated heart rate'' ''key'')) =
     [Warning ''Warning: Psychologist failed to generate a response, likely due to API issues.'',
      Error ''Error: One or more agents failed to generate a response. Check API key and quota.''] \<and>
   calls (snd (process_medical_report
      (specialists (Some ''ok-A'') None (Some ''ok-C'') (Some ''combined verdict''))
      [1] [2] ''patient has elevated heart rate'' ''key'')) =
     [AnalyzerInit ''Cardiologist'' ''patient has elevated heart rate'' ''key'',
      AnalyzerInit ''Psychologist'' ''patient has elevated heart rate'' ''key'',
      AnalyzerInit ''Pulmonologist'' ''patient has elevated heart rate'' ''key'',
      RunCall ''Cardiologist'', RunCall ''Psychologist'', RunCall ''Pulmonologist'']"
  using analyzer_failure_reported
    [of "specialists (Some ''ok-A'') None (Some ''ok-C'') (Some ''combined verdict'')"
      "''patient has elevated heart rate''" "''key''" "[1]" "[2]"]
  by (simp add: run_defs failed_analyzers_def constructed_def specialists_def)

text \<open>
  The returned value does not name the failing analyzers: with the Psychologist failing, and
  with the Cardiologist and the Pulmonologist failing, the same pair is returned.
\<close>

theorem analyzer_failure_reported_counterexample:
  "failed_analyzers (specialists (Some ''ok-A'') None (Some ''ok-C'') (Some ''combined verdict''))
      ''patient has elevated heart rate'' ''key'' = [''Psychologist''] \<and>
   failed_analyzers (specialists None (Some ''ok-B'') None (Some ''combined verdict''))
      ''patient has elevated heart rate'' ''key'' = [''Cardiologist'', ''Pulmonologist''] \<and>
   fst (process_medical_report
      (specialists (Some ''ok-A'') None (Some ''ok-C'') (Some ''combined verdict''))
      [] [] ''patient has elevated heart rate'' ''key'') = Inr (None, None) \<and>
   fst (process_medical_report
      (specialists None (Some ''ok-B'') None (Some ''combined verdict''))
      [] [] ''patient has elevated heart rate'' ''key'') = Inr (None, None)"
  by (simp add: run_defs failed_analyzers_def constructed_def specialists_def)

text \<open>
  Claim C3, as amended. When the three analyzers return texts and the team agent returns
  \<^verbatim>\<open>None\<close>, the run returns \<^verbatim>\<open>(None, None)\<close>, the value it also returns when an analyzer
  fails. What tells the stage is the single message given to \<^verbatim>\<open>st.error\<close>, which names the
  team agent; the progress bar has reached 80.
\<close>

theorem synthesis_failure_reported:
  assumes "Cardiologist M r k = Inr ca" and "Psychologist M r k = Inr pa"
    and "Pulmonologist M r k = Inr qa"
    and "outcomes ca 0 = Inr (Some c)" and "outcomes pa 0 = Inr (Some p)"
    and "outcomes qa 0 = Inr (Some q)"
    and "MultidisciplinaryTeam M (Some c) (Some p) (Some q) k = Inr team_agent"
    and "outcomes team_agent 0 = Inr None"
  shows "fst (process_medical_report M returning sched r k) = Inr (None, None) \<and>
         messages (snd (process_medical_report M returning sched r k)) =
           [Error ''Error: MultidisciplinaryTeam failed to generate a final diagnosis.''] \<and>
         progress_bar (snd (process_medical_report M returning sched r k)) =
           [0, 10, 20, 40, 60, 80, 80]"
proof -
  let ?ags = "[(''Cardiologist'', ca), (''Psychologist'', pa), (''Pulmonologist'', qa)]"
  have con: "constructed M r k = Some ?ags"
    using assms(1-3) by (rule constructed_SomeI)
  with assms(4-6) have "failed_analyzers M r k = []"
    by (simp add: failed_analyzers_def)
  with con have w: "messages (after_pool ?ags returning sched r k) = []"
    by (rule no_warnings)
  from process_medical_report_returned [OF assms(1-6) refl, where sched = sched and returning = returning] obtain rs where
    len: "length (returned (yielded ?ags sched)) = 3" and
    pmr: "process_medical_report M returning sched r k =
           (Inr (None, None),
            st_error ''Error: MultidisciplinaryTeam failed to generate a final diagnosis.''
              (before_synthesis ?ags returning sched r k (Some c) (Some p) (Some q)))"
    using assms(7,8) by (auto dest: arg_cong [where f = size])
  have pb: "progress_bar (after_pool ?ags returning sched r k) = [0, 10, 20, 40, 60, 80]"
    using after_pool_progress_bar [of ?ags returning sched r k] len by simp
  show ?thesis
    by (simp add: pmr effects_defs w pb)
qed

theorem synthesis_failure_reported_witness:
  "Cardiologist (specialists (Some ''ok-A'') (Some ''ok-B'') (Some ''ok-C'') None)
      ''patient is stable'' ''key'' = answering (Inr (Some ''ok-A'')) \<and>
   Psychologist (specialists (Some ''ok-A'') (Some ''ok-B'') (Some ''ok-C'') None)
      ''patient is stable'' ''key'' = answering (Inr (Some ''ok-B'')) \<and>
   Pulmonologist (specialists (Some ''ok-A'') (Some ''ok-B'') (Some ''ok-C'') None)
      ''patient is stable'' ''key'' = answering (Inr (Some ''ok-C'')) \<and>
   MultidisciplinaryTeam (specialists (Some ''ok-A'') (Some ''ok-B'') (Some ''ok-C'') None)
      (Some ''ok-A'') (Some ''ok-B'') (Some ''ok-C'') ''key'' = answering (Inr None) \<and>
   fst (process_medical_report (specialists (Some ''ok-A'') (Some ''ok-B'') (Some ''ok-C'') None)
      [0] [1] ''patient is stable'' ''key'') = Inr (None, None) \<and>
   messages (snd (process_medical_report
      (specialists (Some ''ok-A'') (Some ''ok-B'') (Some ''ok-C'') None)
      [0] [1] ''patient is stable'' ''key'')) =
     [Error ''Error: MultidisciplinaryTeam failed to generate a final diagnosis.''] \<and>
   progress_bar (snd (process_medical_report
      (specialists (Some ''ok-A'') (Some ''ok-B'') (Some ''ok-C'') None)
      [0] [1] ''patient is stable'' ''key'')) = [0, 10, 20, 40, 60, 80, 80]"
  using synthesis_failure_reported
    [of "specialists (Some ''ok-A'') (Some ''ok-B'') (Some ''ok-C'') None"
      "''patient is stable''" "''key''"
      "Agent (\<lambda>n. Inr (Some ''ok-A''))" "Agent (\<lambda>n. Inr (Some ''ok-B''))"
      "Agent (\<lambda>n. Inr (Some ''ok-C''))" "''ok-A''" "''ok-B''" "''ok-C''"
      "Agent (\<lambda>n. Inr None)" "[0]" "[1]"]
  by (simp add: specialists_def answering_def)

text \<open>
  At the caller's interface the two stages are not told apart: a run whose team agent
  returns \<^verbatim>\<open>None\<close> and a run whose Psychologist returns \<^verbatim>\<open>None\<close> return equal values.
\<close>

theorem synthesis_failure_reported_counterexample:
  "failed_analyzers (specialists (Some ''ok-A'') (Some ''ok-B'') (Some ''ok-C'') None)
      ''patient is stable'' ''key'' = [] \<and>
   MultidisciplinaryTeam (specialists (Some ''ok-A'') (Some ''ok-B'') (Some ''ok-C'') None)
      (Some ''ok-A'') (Some ''ok-B'') (Some ''ok-C'') ''key'' = answering (Inr None) \<and>
   failed_analyzers (specialists (Some ''ok-A'') None (Some ''ok-C'') (Some ''combined verdict''))
      ''patient is stable'' ''key'' = [''Psychologist''] \<and>
   fst (process_medical_report (specialists (Some ''ok-A'') (Some ''ok-B'') (Some ''ok-C'') None)
      [] [] ''patient is stable'' ''key'') =
   fst (process_medical_report
      (specialists (Some ''ok-A'') None (Some ''ok-C'') (Some ''combined verdict''))
      [] [] ''patient is stable'' ''key'')"
  by (simp add: run_defs failed_analyzers_def constructed_def specialists_def)




text \<open>
  Claim C5. Take two runs with the same collaborators and arguments that differ in the orders
  of the pool. When no analyzer raises outside \<^verbatim>\<open>Exception\<close>, they return the same value,
  the dictionary being read as a mapping from names to responses; and whenever one returns
  responses and a diagnosis, so does the other, with the same mapping and diagnosis. The
  pool block hands on a dictionary only with an entry for each of the three analyzers. And
  the decisions come after all results: the error of line 133 or a construction of the team
  agent occurs in a run exactly when the three analyzers were constructed and each returned
  a value, and then the loop has reported all three (progress 40, 60, 80 and the three
  status texts).
\<close>

theorem completion_order_irrelevant:
  "((\<forall>e. raised_by_analyzer M r k e \<longrightarrow> is_Exception e) \<longrightarrow>
      as_mapping (fst (process_medical_report M returning sched r k)) =
      as_mapping (fst (process_medical_report M returning' sched' r k))) \<and>
   (\<forall>rs d. fst (process_medical_report M returning sched r k) = Inr (Some rs, Some d) \<longrightarrow>
      (\<exists>rs'. fst (process_medical_report M returning' sched' r k) = Inr (Some rs', Some d) \<and>
         map_of rs' = map_of rs)) \<and>
   (\<forall>ags rs s s'. constructed M r k = Some ags \<longrightarrow>
      run_executor ags returning sched s = (Inr rs, s') \<longrightarrow>
      fst ` set rs = {''Cardiologist'', ''Psychologist'', ''Pulmonologist''}) \<and>
   ((Error ''Error: One or more agents failed to generate a response. Check API key and quota.''
       \<in> set (messages (snd (process_medical_report M returning sched r k))) \<or>
     (\<exists>c p q. TeamInit c p q k \<in> set (calls (snd (process_medical_report M returning sched r k)))))
    \<longleftrightarrow> (\<exists>ags. constructed M r k = Some ags \<and> (\<forall>(n, a)\<in>set ags. \<not> isl (outcomes a 0)))) \<and>
   ((Error ''Error: One or more agents failed to generate a response. Check API key and quota.''
       \<in> set (messages (snd (process_medical_report M returning sched r k))) \<or>
     (\<exists>c p q. TeamInit c p q k \<in> set (calls (snd (process_medical_report M returning sched r k)))))
    \<longrightarrow> take 6 (progress_bar (snd (process_medical_report M returning sched r k))) =
          [0, 10, 20, 40, 60, 80] \<and>
        {''Completed Cardiologist analysis...'', ''Completed Psychologist analysis...'',
         ''Completed Pulmonologist analysis...''}
          \<subseteq> set (status_text (snd (process_medical_report M returning sched r k))))"
  (is "?A \<and> ?B \<and> ?C \<and> ?D \<and> ?E")
proof (intro conjI)
  have same: "as_mapping (fst (process_medical_report M returning sched r k)) =
      as_mapping (fst (process_medical_report M returning' sched' r k))"
    if ok: "\<forall>e. raised_by_analyzer M r k e \<longrightarrow> is_Exception e"
  proof (cases "constructed M r k")
    case None
    show ?thesis
      by (simp only: no_agents_schedule [OF None, of returning sched returning' sched'])
  next
    case (Some ags)
    from Some obtain ca pa qa where con: "Cardiologist M r k = Inr ca" "Psychologist M r k = Inr pa"
        "Pulmonologist M r k = Inr qa" and
      ags: "ags = [(''Cardiologist'', ca), (''Psychologist'', pa), (''Pulmonologist'', qa)]"
      by (rule constructed_SomeD)
    show ?thesis
    proof (cases "\<exists>(n, a)\<in>set ags. isl (outcomes a 0)")
      case True
      then obtain n a e where na: "(n, a) \<in> set ags" "outcomes a 0 = Inl e"
        by (auto simp: isl_def)
      from process_medical_report_raised(1) [OF Some na, where returning = returning and sched = sched]
        process_medical_report_raised(1) [OF Some na, where returning = returning' and sched = sched']
      obtain e1 e2 where
        e1: "\<exists>(n', a')\<in>set ags. outcomes a' 0 = Inl e1"
          "process_medical_report M returning sched r k =
             except_Exception e1 (after_pool ags returning sched r k)" and
        e2: "\<exists>(n', a')\<in>set ags. outcomes a' 0 = Inl e2"
          "process_medical_report M returning' sched' r k =
             except_Exception e2 (after_pool ags returning' sched' r k)"
        by blast
      from e1(1) have "raised_by_analyzer M r k e1"
        by (force simp: raised_by_analyzer_def Some)
      with ok have x1: "is_Exception e1" by blast
      from e2(1) have "raised_by_analyzer M r k e2"
        by (force simp: raised_by_analyzer_def Some)
      with ok have x2: "is_Exception e2" by blast
      from x1 x2 show ?thesis
        by (simp add: e1(2) e2(2) except_Exception_simps)
    next
      case False
      then obtain c p q where runs: "outcomes ca 0 = Inr c" "outcomes pa 0 = Inr p"
          "outcomes qa 0 = Inr q"
        by (auto simp: ags isl_def) (metis sum.exhaust)
      from process_medical_report_returned
        [OF con runs ags, where returning = returning and sched = sched] obtain rs where
        m: "mset rs = mset [(''Cardiologist'', c), (''Psychologist'', p), (''Pulmonologist'', q)]" and
        pmr: "fst (process_medical_report M returning sched r k) =
          (if c = None \<or> p = None \<or> q = None then Inr (None, None)
           else case MultidisciplinaryTeam M c p q k of
                  Inl e \<Rightarrow> (if is_Exception e then Inr (None, None) else Inl e)
                | Inr team_agent \<Rightarrow>
               (case outcomes team_agent 0 of
                  Inl e \<Rightarrow> (if is_Exception e then Inr (None, None) else Inl e)
                | Inr None \<Rightarrow> Inr (None, None)
                | Inr (Some d) \<Rightarrow> Inr (Some rs, Some d)))"
        by (auto simp: except_Exception_simps split: sum.splits option.splits)
      from process_medical_report_returned
        [OF con runs ags, where returning = returning' and sched = sched'] obtain rs' where
        m': "mset rs' = mset [(''Cardiologist'', c), (''Psychologist'', p), (''Pulmonologist'', q)]" and
        pmr': "fst (process_medical_report M returning' sched' r k) =
          (if c = None \<or> p = None \<or> q = None then Inr (None, None)
           else case MultidisciplinaryTeam M c p q k of
                  Inl e \<Rightarrow> (if is_Exception e then Inr (None, None) else Inl e)
                | Inr team_agent \<Rightarrow>
               (case outcomes team_agent 0 of
                  Inl e \<Rightarrow> (if is_Exception e then Inr (None, None) else Inl e)
                | Inr None \<Rightarrow> Inr (None, None)
                | Inr (Some d) \<Rightarrow> Inr (Some rs', Some d)))"
        by (auto simp: except_Exception_simps split: sum.splits option.splits)
      have "map_of rs = map_of rs'"
        by (rule map_of_permuted [OF m m']) simp
      then show ?thesis
        unfolding pmr pmr' by (simp add: as_mapping_def split: sum.splits option.splits)
    qed
  qed
  then show ?A
    by blast
  show ?B
  proof (intro allI impI)
    fix rs d
    assume suc: "fst (process_medical_report M returning sched r k) = Inr (Some rs, Some d)"
    have "\<not> raised_by_analyzer M r k e" for e
    proof
      assume "raised_by_analyzer M r k e"
      then obtain ags n a where ags: "constructed M r k = Some ags" "(n, a) \<in> set ags"
          "outcomes a 0 = Inl e"
        by (auto simp: raised_by_analyzer_def split: option.splits)
      from process_medical_report_raised(1) [OF ags, where returning = returning and sched = sched]
        suc show False
        by (auto simp: except_Exception_simps split: if_splits)
    qed
    then have "as_mapping (fst (process_medical_report M returning sched r k)) =
        as_mapping (fst (process_medical_report M returning' sched' r k))"
      by (intro same) blast
    with suc show "\<exists>rs'. fst (process_medical_report M returning' sched' r k) = Inr (Some rs', Some d) \<and>
        map_of rs' = map_of rs"
      by (cases "fst (process_medical_report M returning' sched' r k)")
         (auto simp: as_mapping_def map_option_case split: option.splits)
  qed
  show ?C
  proof (intro allI impI)
    fix ags rs s s'
    assume con: "constructed M r k = Some ags"
      and re: "run_executor ags returning sched s = (Inr rs, s')"
    have ok: "\<forall>(n, a)\<in>set ags. \<not> isl (outcomes a 0)"
    proof (rule ccontr)
      assume "\<not> (\<forall>(n, a)\<in>set ags. \<not> isl (outcomes a 0))"
      then obtain n a e where "(n, a) \<in> set ags" "outcomes a 0 = Inl e"
        by (auto simp: isl_def)
      from run_executor_raised(1) [OF this, where returning = returning and sched = sched and s = s]
        re show False
        by auto
    qed
    from run_executor_returned
      [OF constructed_distinct [OF con] ok, where returning = returning and sched = sched and s = s] re
    have "mset rs = mset (results ags)"
      by simp
    then have "set rs = set (results ags)"
      by (rule mset_eq_setD)
    then have "fst ` set rs = set (map fst (results ags))"
      by simp
    also have "map fst (results ags) = map fst ags"
      by (induction ags) (auto simp: results_def)
    finally show "fst ` set rs = {''Cardiologist'', ''Psychologist'', ''Pulmonologist''}"
      by (simp add: constructed_names [OF con])
  qed
  have "?D \<and> ?E"
  proof (cases rule: process_medical_report_shapes [of M r k returning sched])
    case (no_agents e n)
    from no_agents(3) have ti: "TeamInit c p q k \<notin> set (take n (agents_constructed r k))" for c p q
      by (rule take_constructed_calls(3))
    from no_agents(1) ti have D: ?D
      by (simp add: no_agents(4) except_Exception_simps effects_defs)
    from ti have E: ?E
      by (simp add: no_agents(4) except_Exception_simps effects_defs)
    from D E show ?thesis
      by (rule conjI)
  next
    case (fault ags e)
    from fault(2) have nok: "\<not> (\<forall>(n, a)\<in>set ags. \<not> isl (outcomes a 0))"
      by force
    from fault(1) have c: "calls (after_pool ags returning sched r k) =
        agents_constructed r k @
        [RunCall ''Cardiologist'', RunCall ''Psychologist'', RunCall ''Pulmonologist'']"
      by (rule constructed_SomeD) (simp add: after_pool_calls)
    note w = warnings_only [OF fault(1), of _ returning sched]
    from nok w have D: ?D
      by (simp add: fault(1,4) except_Exception_simps c agents_constructed_def)
    from w have E: ?E
      by (simp add: fault(4) except_Exception_simps c agents_constructed_def)
    from D E show ?thesis
      by (rule conjI)
  next
    case (absent ags)
    note len = constructed_length [OF absent(1)]
    from absent(3) have D: ?D
      by (simp add: absent(1,5) st_error_def)
    from absent(1) have "set (map fst (returned (yielded ags sched))) = set (map fst ags)"
    proof -
      from run_executor_returned [OF constructed_distinct [OF absent(1)] absent(3),
          where returning = returning and sched = sched]
      have "mset (returned (yielded ags sched)) = mset (results ags)"
        by auto
      then have "set (returned (yielded ags sched)) = set (results ags)"
        by (rule mset_eq_setD)
      then have "fst ` set (returned (yielded ags sched)) = set (map fst (results ags))"
        by simp
      also have "map fst (results ags) = map fst ags"
        by (induction ags) (auto simp: results_def)
      finally show ?thesis
        by simp
    qed
    then have names: "fst ` set (returned (yielded ags sched)) =
        {''Cardiologist'', ''Psychologist'', ''Pulmonologist''}"
      by (simp add: constructed_names [OF absent(1)])
    have st: "{''Completed Cardiologist analysis...'', ''Completed Psychologist analysis...'',
         ''Completed Pulmonologist analysis...''}
          \<subseteq> set (status_text (after_pool ags returning sched r k))"
    proof -
      have "(\<lambda>n. ''Completed '' @ n @ '' analysis...'') ` fst ` set (returned (yielded ags sched))
          \<subseteq> set (status_text (after_pool ags returning sched r k))"
        by (force simp: after_pool_def loop_status_def)
      then show ?thesis
        by (simp add: names)
    qed
    from st absent(4) have E: ?E
      by (simp add: absent(5) st_error_def after_pool_progress_bar [OF len])
    from D E show ?thesis
      by (rule conjI)
  next
    case (synthesis ags ca pa qa c p q rs)
    have con: "constructed M r k = Some ags"
      unfolding synthesis(1) using synthesis(2-4) by (rule constructed_SomeI)
    have ok: "\<forall>(n, a)\<in>set ags. \<not> isl (outcomes a 0)"
      by (simp add: synthesis(1,5-7))
    have len: "length ags = 3"
      by (simp add: synthesis(1))
    note pb = after_pool_progress_bar [OF len, of returning sched r k]
    note ac = after_pool_calls [of ca pa qa returning sched r k]
    have names: "fst ` set (returned (yielded ags sched)) =
        {''Cardiologist'', ''Psychologist'', ''Pulmonologist''}"
    proof -
      from run_executor_returned [OF constructed_distinct [OF con] ok,
          where returning = returning and sched = sched]
      have "mset (returned (yielded ags sched)) = mset (results ags)"
        by auto
      then have "set (returned (yielded ags sched)) = set (results ags)"
        by (rule mset_eq_setD)
      then have "fst ` set (returned (yielded ags sched)) = set (map fst (results ags))"
        by simp
      also have "map fst (results ags) = map fst ags"
        by (induction ags) (auto simp: results_def)
      finally show ?thesis
        by (simp add: synthesis(1))
    qed
    have st: "{''Completed Cardiologist analysis...'', ''Completed Psychologist analysis...'',
         ''Completed Pulmonologist analysis...''}
          \<subseteq> set (status_text (after_pool ags returning sched r k))"
    proof -
      have "(\<lambda>n. ''Completed '' @ n @ '' analysis...'') ` fst ` set (returned (yielded ags sched))
          \<subseteq> set (status_text (after_pool ags returning sched r k))"
        by (force simp: after_pool_def loop_status_def)
      then show ?thesis
        by (simp add: names)
    qed
    have ti: "\<exists>c p q. TeamInit c p q k \<in> set (calls (snd (process_medical_report M returning sched r k)))"
    proof (cases "MultidisciplinaryTeam M (Some c) (Some p) (Some q) k")
      case (Inl e)
      then show ?thesis
        by (auto simp add: synthesis(1,10) except_Exception_simps effects_defs ac)
    next
      case team: (Inr team_agent)
      show ?thesis
      proof (cases "outcomes team_agent 0")
        case (Inl e)
        with team show ?thesis
          by (auto simp add: synthesis(1,10) except_Exception_simps effects_defs ac)
      next
        case (Inr d)
        with team show ?thesis
          by (cases d) (auto simp add: synthesis(1,10) effects_defs ac)
      qed
    qed
    from ti con ok have D: ?D
      by blast
    have "take 6 (progress_bar (snd (process_medical_report M returning sched r k))) =
          [0, 10, 20, 40, 60, 80] \<and>
        {''Completed Cardiologist analysis...'', ''Completed Psychologist analysis...'',
         ''Completed Pulmonologist analysis...''}
          \<subseteq> set (status_text (snd (process_medical_report M returning sched r k)))"
    proof (cases "MultidisciplinaryTeam M (Some c) (Some p) (Some q) k")
      case (Inl e)
      with st synthesis(9) show ?thesis
        by (simp add: synthesis(10) except_Exception_simps effects_defs pb)
    next
      case team: (Inr team_agent)
      show ?thesis
      proof (cases "outcomes team_agent 0")
        case (Inl e)
        with team st synthesis(9) show ?thesis
          by (simp add: synthesis(10) except_Exception_simps effects_defs pb)
      next
        case (Inr d)
        with team st synthesis(9) show ?thesis
          by (cases d) (simp_all add: synthesis(10) effects_defs pb)
      qed
    qed
    then have E: ?E
      by blast
    from D E show ?thesis
      by (rule conjI)
  qed
  then show ?D and ?E
    by blast+
qed

theorem completion_order_irrelevant_witness:
  "fst (process_medical_report
      (specialists (Some ''ok-A'') (Some ''ok-B'') (Some ''ok-C'') (Some ''combined verdict''))
      [0] [2, 1] ''patient is stable'' ''key'') =
     Inr (Some [(''Pulmonologist'', Some ''ok-C''), (''Psychologist'', Some ''ok-B''),
                (''Cardiologist'', Some ''ok-A'')], Some ''combined verdict'') \<and>
   fst (process_medical_report
      (specialists (Some ''ok-A'') (Some ''ok-B'') (Some ''ok-C'') (Some ''combined verdict''))
      [1] [] ''patient is stable'' ''key'') =
     Inr (Some [(''Cardiologist'', Some ''ok-A''), (''Psychologist'', Some ''ok-B''),
                (''Pulmonologist'', Some ''ok-C'')], Some ''combined verdict'') \<and>
   map_of [(''Cardiologist'', Some ''ok-A''), (''Psychologist'', Some ''ok-B''),
           (''Pulmonologist'', Some ''ok-C'')] =
   map_of [(''Pulmonologist'', Some ''ok-C''), (''Psychologist'', Some ''ok-B''),
           (''Cardiologist'', Some ''ok-A'')] \<and>
   TeamInit (Some ''ok-A'') (Some ''ok-B'') (Some ''ok-C'') ''key''
     \<in> set (calls (snd (process_medical_report
          (specialists (Some ''ok-A'') (Some ''ok-B'') (Some ''ok-C'') (Some ''combined verdict''))
          [0] [2, 1] ''patient is stable'' ''key''))) \<and>
   take 6 (progress_bar (snd (process_medical_report
      (specialists (Some ''ok-A'') (Some ''ok-B'') (Some ''ok-C'') (Some ''combined verdict''))
      [0] [2, 1] ''patient is stable'' ''key''))) = [0, 10, 20, 40, 60, 80]"
proof -
  let ?M = "specialists (Some ''ok-A'') (Some ''ok-B'') (Some ''ok-C'') (Some ''combined verdict'')"
  note t = completion_order_irrelevant
    [of ?M "''patient is stable''" "''key''" "[0]" "[2, 1]" "[1]" "[]"]
  have a: "fst (process_medical_report ?M [0] [2, 1] ''patient is stable'' ''key'') =
     Inr (Some [(''Pulmonologist'', Some ''ok-C''), (''Psychologist'', Some ''ok-B''),
                (''Cardiologist'', Some ''ok-A'')], Some ''combined verdict'')"
    by (simp add: run_defs specialists_def)
  have b: "fst (process_medical_report ?M [1] [] ''patient is stable'' ''key'') =
     Inr (Some [(''Cardiologist'', Some ''ok-A''), (''Psychologist'', Some ''ok-B''),
                (''Pulmonologist'', Some ''ok-C'')], Some ''combined verdict'')"
    by (simp add: run_defs specialists_def)
  have c: "TeamInit (Some ''ok-A'') (Some ''ok-B'') (Some ''ok-C'') ''key''
     \<in> set (calls (snd (process_medical_report ?M [0] [2, 1] ''patient is stable'' ''key'')))"
    by (simp add: run_defs specialists_def)
  from t a b have "map_of [(''Cardiologist'', Some ''ok-A''), (''Psychologist'', Some ''ok-B''),
           (''Pulmonologist'', Some ''ok-C'')] =
      map_of [(''Pulmonologist'', Some ''ok-C''), (''Psychologist'', Some ''ok-B''),
           (''Cardiologist'', Some ''ok-A'')]"
    by auto
  moreover from t c have "take 6 (progress_bar (snd (process_medical_report ?M [0] [2, 1]
      ''patient is stable'' ''key''))) = [0, 10, 20, 40, 60, 80]"
    by blast
  ultimately show ?thesis
    using a b c by simp
qed

text \<open>
  Claim C6. In every run the values given to the progress bar never decrease, and the last of
  them is 100 exactly when the run returns the responses together with the final diagnosis.
  The values are \<open>0, 10\<close>, then \<open>20\<close> once the analyzers are constructed, then \<open>40, 60, 80\<close> as
  far as the loop gets, then \<open>80\<close> once no response is \<^verbatim>\<open>None\<close>, then \<open>100\<close> once the team
  has returned a diagnosis.
\<close>

theorem progress_monotone:
  "sorted (progress_bar (snd (process_medical_report M returning sched r k))) \<and>
   (last (progress_bar (snd (process_medical_report M returning sched r k))) = 100 \<longleftrightarrow>
      (\<exists>rs d. fst (process_medical_report M returning sched r k) = Inr (Some rs, Some d)))"
proof (cases rule: process_medical_report_shapes [of M r k returning sched])
  case (no_agents e n)
  then show ?thesis
    by (simp add: except_Exception_simps effects_defs)
next
  case (fault ags e)
  note len = constructed_length [OF fault(1)]
  from fault(3) phase_sorted phase_last show ?thesis
    by (simp add: fault(4) except_Exception_simps after_pool_progress_bar [OF len]
        del: append.simps)
next
  case (absent ags)
  note len = constructed_length [OF absent(1)]
  from absent(4) show ?thesis
    by (simp add: absent(5) st_error_def after_pool_progress_bar [OF len])
next
  case (synthesis ags ca pa qa c p q rs)
  have len: "length ags = 3"
    by (simp add: synthesis(1))
  note pb = after_pool_progress_bar [OF len, of returning sched r k]
  show ?thesis
  proof (cases "MultidisciplinaryTeam M (Some c) (Some p) (Some q) k")
    case (Inl e)
    with synthesis(9) show ?thesis
      by (simp add: synthesis(10) except_Exception_simps effects_defs pb)
  next
    case team: (Inr team_agent)
    show ?thesis
    proof (cases "outcomes team_agent 0")
      case (Inl e)
      with team synthesis(9) show ?thesis
        by (simp add: synthesis(10) except_Exception_simps effects_defs pb)
    next
      case (Inr d)
      with team synthesis(9) show ?thesis
        by (cases d) (simp_all add: synthesis(10) effects_defs pb)
    qed
  qed
qed

theorem progress_monotone_witness:
  "sorted (progress_bar (snd (process_medical_report
      (specialists (Some ''ok-A'') (Some ''ok-B'') (Some ''ok-C'') (Some ''combined verdict''))
      [] [2, 0] ''patient is stable'' ''key''))) \<and>
   last (progress_bar (snd (process_medical_report
      (specialists (Some ''ok-A'') (Some ''ok-B'') (Some ''ok-C'') (Some ''combined verdict''))
      [] [2, 0] ''patient is stable'' ''key''))) = 100 \<and>
   fst (process_medical_report
      (specialists (Some ''ok-A'') (Some ''ok-B'') (Some ''ok-C'') (Some ''combined verdict''))
      [] [2, 0] ''patient is stable'' ''key'') =
     Inr (Some [(''Pulmonologist'', Some ''ok-C''), (''Cardiologist'', Some ''ok-A''),
                (''Psychologist'', Some ''ok-B'')], Some ''combined verdict'')"
  using progress_monotone
    [of "specialists (Some ''ok-A'') (Some ''ok-B'') (Some ''ok-C'') (Some ''combined verdict'')"
      "[]" "[2, 0]" "''patient is stable''" "''key''"]
  by (simp add: run_defs specialists_def)

text \<open>
  Claim C7, as amended. The pool block adds to the progress bar one value for each result the
  loop receives: the first \<open>j\<close> of \<open>20 + i * ((80 - 20) div 3)\<close> for \<open>i = 1, 2, 3\<close>, that is
  of 40, 60, 80, where \<open>j\<close> is the number of futures yielded in front of the first one that
  holds an exception. \<open>j\<close> is at most 3; it is 3 exactly when no analyzer raises, and then
  there is one value for each analyzer; 80 is among the values exactly when \<open>j\<close> is 3. When
  an analyzer raises, the loop is left at its future: the analyzers yielded after it get no
  value although they complete, and 80 is not reached.
\<close>

theorem analyzer_phase_progress:
  assumes "constructed M r k = Some ags"
  shows "progress_bar (snd (run_executor ags returning sched s)) =
     progress_bar s @
       take (length (returned (yielded ags sched)))
         (map (\<lambda>i. 20 + i * ((80 - 20) div length ags)) [1, 2, 3]) \<and>
   length (returned (yielded ags sched)) \<le> 3 \<and>
   (length (returned (yielded ags sched)) = 3 \<longleftrightarrow>
      (\<forall>(n, a)\<in>set ags. \<not> isl (outcomes a 0))) \<and>
   (80 \<in> set (take (length (returned (yielded ags sched)))
         (map (\<lambda>i. 20 + i * ((80 - 20) div length ags)) [1, 2, 3])) \<longleftrightarrow>
      length (returned (yielded ags sched)) = 3)"
proof -
  let ?j = "length (returned (yielded ags sched))"
  note len = constructed_length [OF assms]
  have steps: "map (\<lambda>i. 20 + i * ((80 - 20) div length ags)) [1, 2, 3] = [40, 60, 80 :: nat]"
    by (simp add: len)
  have j: "?j \<le> 3"
    using len by (rule returned_yielded_le)
  have "progress_bar (snd (run_executor ags returning sched s)) = progress_bar s @ take ?j [40, 60, 80]"
    by (simp only: run_executor_progress_bar loop_progress_take [OF j])
  with j phase_top [OF j] returned_yielded_full [OF assms, of sched] show ?thesis
    by (simp only: steps)
qed

theorem analyzer_phase_progress_witness:
  "constructed (specialists (Some ''ok-A'') None (Some ''ok-C'') (Some ''combined verdict''))
      ''patient has elevated heart rate'' ''key'' =
     Some [(''Cardiologist'', Agent (\<lambda>n. Inr (Some ''ok-A''))),
           (''Psychologist'', Agent (\<lambda>n. Inr None)),
           (''Pulmonologist'', Agent (\<lambda>n. Inr (Some ''ok-C'')))] \<and>
   progress_bar (snd (run_executor
      [(''Cardiologist'', Agent (\<lambda>n. Inr (Some ''ok-A''))),
       (''Psychologist'', Agent (\<lambda>n. Inr None)),
       (''Pulmonologist'', Agent (\<lambda>n. Inr (Some ''ok-C'')))]
      [] [1, 0] \<lparr>progress_bar = [0, 10, 20], status_text = [], messages = [], calls = []\<rparr>)) =
     [0, 10, 20, 40, 60, 80] \<and>
   length (returned (yielded
      [(''Cardiologist'', Agent (\<lambda>n. Inr (Some ''ok-A''))),
       (''Psychologist'', Agent (\<lambda>n. Inr None)),
       (''Pulmonologist'', Agent (\<lambda>n. Inr (Some ''ok-C'')))] [1, 0])) = 3"
  using analyzer_phase_progress
    [of "specialists (Some ''ok-A'') None (Some ''ok-C'') (Some ''combined verdict'')"
      "''patient has elevated heart rate''" "''key''"
      "[(''Cardiologist'', Agent (\<lambda>n. Inr (Some ''ok-A''))),
        (''Psychologist'', Agent (\<lambda>n. Inr None)),
        (''Pulmonologist'', Agent (\<lambda>n. Inr (Some ''ok-C'')))]"
      "[]" "[1, 0]"
      "\<lparr>progress_bar = [0, 10, 20], status_text = [], messages = [], calls = []\<rparr>"]
  by (simp add: run_defs yielded_def submitted_def constructed_def specialists_def)

text \<open>
  The claim as stated fails when an analyzer raises: here the Psychologist raises and its
  future is yielded first. All three analyzers are run and two of them return a text, yet the
  progress bar stays at 20.
\<close>

theorem analyzer_phase_progress_counterexample:
  "constructed (raising_psychologist (Some ''ok-A'') (Some ''ok-C''))
      ''patient has elevated heart rate'' ''key'' =
     Some [(''Cardiologist'', Agent (\<lambda>n. Inr (Some ''ok-A''))),
           (''Psychologist'', Agent (\<lambda>n. Inl (Exception ''quota exceeded''))),
           (''Pulmonologist'', Agent (\<lambda>n. Inr (Some ''ok-C'')))] \<and>
   process_medical_report (raising_psychologist (Some ''ok-A'') (Some ''ok-C''))
      [] [1] ''patient has elevated heart rate'' ''key'' =
     (Inr (None, None),
      \<lparr>progress_bar = [0, 10, 20],
       status_text = [''Initializing AI agents...'', ''Running specialist consultations...''],
       messages = [Error ''An error occurred during processing: quota exceeded''],
       calls = [AnalyzerInit ''Cardiologist'' ''patient has elevated heart rate'' ''key'',
         AnalyzerInit ''Psychologist'' ''patient has elevated heart rate'' ''key'',
         AnalyzerInit ''Pulmonologist'' ''patient has elevated heart rate'' ''key'',
         RunCall ''Cardiologist'', RunCall ''Psychologist'', RunCall ''Pulmonologist'']\<rparr>)"
  by (simp add: run_defs constructed_def raising_psychologist_def)

text \<open>
  Claim C8, as amended. In every run the \<^verbatim>\<open>run()\<close> of each analyzer and of the team agent is
  invoked at most once: no worker is invoked a second time. The \<^verbatim>\<open>run()\<close> of each of the three
  analyzers is invoked exactly once in every run in which the three constructors return an
  agent (also when a worker returns \<^verbatim>\<open>None\<close> or raises: all three are submitted, and the
  pool block waits for them). When a constructor raises, no \<^verbatim>\<open>run()\<close> is invoked at all.
\<close>

theorem run_invoked_at_most_once:
  "count_list (calls (snd (process_medical_report M returning sched r k))) (RunCall ''Cardiologist'') \<le> 1 \<and>
   count_list (calls (snd (process_medical_report M returning sched r k))) (RunCall ''Psychologist'') \<le> 1 \<and>
   count_list (calls (snd (process_medical_report M returning sched r k))) (RunCall ''Pulmonologist'') \<le> 1 \<and>
   count_list (calls (snd (process_medical_report M returning sched r k)))
     (RunCall ''MultidisciplinaryTeam'') \<le> 1 \<and>
   (constructed M r k \<noteq> None \<longrightarrow>
      count_list (calls (snd (process_medical_report M returning sched r k))) (RunCall ''Cardiologist'') = 1 \<and>
      count_list (calls (snd (process_medical_report M returning sched r k))) (RunCall ''Psychologist'') = 1 \<and>
      count_list (calls (snd (process_medical_report M returning sched r k))) (RunCall ''Pulmonologist'') = 1) \<and>
   (constructed M r k = None \<longrightarrow>
      (\<forall>name. count_list (calls (snd (process_medical_report M returning sched r k))) (RunCall name) = 0))"
proof (cases rule: process_medical_report_shapes [of M r k returning sched])
  case (no_agents e n)
  then show ?thesis
    by (simp add: except_Exception_simps effects_defs take_constructed_calls(1))
next
  case (fault ags e)
  from fault(1) show ?thesis
    by (rule constructed_SomeD)
       (simp add: fault except_Exception_simps after_pool_calls agents_constructed_def)
next
  case (absent ags)
  from absent(1) show ?thesis
    by (rule constructed_SomeD)
       (simp add: absent st_error_def after_pool_calls agents_constructed_def)
next
  case (synthesis ags ca pa qa c p q rs)
  have con: "constructed M r k = Some ags"
    unfolding synthesis(1) using synthesis(2-4) by (rule constructed_SomeI)
  note ac = after_pool_calls [of ca pa qa returning sched r k]
  show ?thesis
  proof (cases "MultidisciplinaryTeam M (Some c) (Some p) (Some q) k")
    case (Inl e)
    then show ?thesis
      by (simp add: con synthesis(1,10) except_Exception_simps effects_defs ac agents_constructed_def)
  next
    case team: (Inr team_agent)
    show ?thesis
    proof (cases "outcomes team_agent 0")
      case (Inl e)
      with team show ?thesis
        by (simp add: con synthesis(1,10) except_Exception_simps effects_defs ac agents_constructed_def)
    next
      case (Inr d)
      with team show ?thesis
        by (cases d) (simp_all add: con synthesis(1,10) effects_defs ac agents_constructed_def)
    qed
  qed
qed

theorem run_invoked_at_most_once_witness:
  "constructed (raising_psychologist None (Some ''ok-C'')) ''patient is stable'' ''key'' \<noteq> None \<and>
   count_list (calls (snd (process_medical_report (raising_psychologist None (Some ''ok-C''))
      [] [1] ''patient is stable'' ''key''))) (RunCall ''Cardiologist'') = 1 \<and>
   count_list (calls (snd (process_medical_report (raising_psychologist None (Some ''ok-C''))
      [] [1] ''patient is stable'' ''key''))) (RunCall ''Psychologist'') = 1 \<and>
   count_list (calls (snd (process_medical_report (raising_psychologist None (Some ''ok-C''))
      [] [1] ''patient is stable'' ''key''))) (RunCall ''Pulmonologist'') = 1 \<and>
   count_list (calls (snd (process_medical_report (raising_psychologist None (Some ''ok-C''))
      [] [1] ''patient is stable'' ''key''))) (RunCall ''MultidisciplinaryTeam'') = 0"
  using run_invoked_at_most_once
    [of "raising_psychologist None (Some ''ok-C'')" "[]" "[1]" "''patient is stable''" "''key''"]
  by (simp add: run_defs constructed_def raising_psychologist_def)

text \<open>
  The claim as stated fails when a constructor raises: here the Cardiologist is constructed,
  the constructor of the Psychologist raises, and the run ends without any \<^verbatim>\<open>run()\<close>.
\<close>

theorem run_invoked_at_most_once_counterexample:
  "Cardiologist (rejecting_psychologist (Some ''ok-A'') (Some ''ok-C'')) ''patient is stable'' [] =
     answering (Inr (Some ''ok-A'')) \<and>
   process_medical_report (rejecting_psychologist (Some ''ok-A'') (Some ''ok-C''))
      [] [] ''patient is stable'' [] =
     (Inr (None, None),
      \<lparr>progress_bar = [0, 10], status_text = [''Initializing AI agents...''],
       messages = [Error ''An error occurred during processing: API key not valid''],
       calls = [AnalyzerInit ''Cardiologist'' ''patient is stable'' [],
                AnalyzerInit ''Psychologist'' ''patient is stable'' []]\<rparr>) \<and>
   count_list
     (calls (snd (process_medical_report (rejecting_psychologist (Some ''ok-A'') (Some ''ok-C''))
        [] [] ''patient is stable'' []))) (RunCall ''Cardiologist'') = 0"
  by (simp add: run_defs rejecting_psychologist_def)




end
